theory Spec2Isabelle
  imports Main
begin

section \<open>JavaScript values\<close>

text \<open>
  The values that flow through the option records, the manifests and the cache
  metadata are JSON-like. An object is kept as the list of its own enumerable
  properties in enumeration order; numbers are integers (no NaN, no fractions).
\<close>

datatype jsval =
    JUndefined
  | JNull
  | JBool bool
  | JNum int
  | JStr string
  | JArr "jsval list"
  | JObj "(string \<times> jsval) list"

type_synonym obj = "(string \<times> jsval) list"

text \<open>Absolute, normalised paths are lists of segments; the root is the empty list.\<close>

type_synonym path = "string list"

datatype error =
    ERR_UNKNOWN_ESM_OPTION string
  | ERR_INVALID_ESM_OPTION string jsval
  | TypeError
  | LoadError string
  | CompileError string
  | WithFilename path error

text \<open>The coercion \<open>!! v\<close>.\<close>

fun truthy :: "jsval \<Rightarrow> bool" where
  "truthy JUndefined = False"
| "truthy JNull = False"
| "truthy (JBool b) = b"
| "truthy (JNum n) = (n \<noteq> 0)"
| "truthy (JStr s) = (s \<noteq> [])"
| "truthy (JArr xs) = True"
| "truthy (JObj kvs) = True"

text \<open>\<open>a || b\<close> on values.\<close>

definition js_or :: "jsval \<Rightarrow> jsval \<Rightarrow> jsval" where
  "js_or a b = (if truthy a then a else b)"

definition digit_char :: "nat \<Rightarrow> char" where
  "digit_char d = char_of (48 + d)"

text \<open>The decimal numeral of an array index, as the property name of the element.\<close>

function nat_str :: "nat \<Rightarrow> string" where
  "nat_str n = (if n < 10 then [digit_char n] else nat_str (n div 10) @ [digit_char (n mod 10)])"
  by pat_completeness auto
termination
  by (relation "measure id") auto

declare nat_str.simps [simp del]

text \<open>\<open>typeof v === "object" && v !== null\<close>.\<close>

fun isObjectLike :: "jsval \<Rightarrow> bool" where
  "isObjectLike (JArr xs) = True"
| "isObjectLike (JObj kvs) = True"
| "isObjectLike v = False"

text \<open>
  Modelled from the spec: \<open>util/keys.js\<close> is not among the sources. \<open>keys\<close> lists the
  own enumerable property names of an object-like value and is empty for every other value.
\<close>

fun keys :: "jsval \<Rightarrow> string list" where
  "keys (JObj kvs) = map fst kvs"
| "keys (JArr xs) = map nat_str [0..<length xs]"
| "keys v = []"

text \<open>Reading an own property: \<open>o[name]\<close>, \<open>undefined\<close> when absent.\<close>

definition obj_get :: "obj \<Rightarrow> string \<Rightarrow> jsval" where
  "obj_get kvs k = (case map_of kvs k of Some v \<Rightarrow> v | None \<Rightarrow> JUndefined)"

fun js_prop :: "jsval \<Rightarrow> string \<Rightarrow> jsval" where
  "js_prop (JObj kvs) k = obj_get kvs k"
| "js_prop (JArr xs) k =
     (if k = ''length'' then JNum (int (length xs))
      else (case filter (\<lambda>i. nat_str i = k) [0..<length xs] of
              [] \<Rightarrow> JUndefined
            | i # _ \<Rightarrow> xs ! i))"
| "js_prop v k = JUndefined"

text \<open>
  Modelled from the spec: \<open>util/has.js\<close> is not among the sources. \<open>has\<close> is the
  own-property test, false for \<open>null\<close> and \<open>undefined\<close>.
\<close>

fun has :: "jsval \<Rightarrow> string \<Rightarrow> bool" where
  "has (JObj kvs) k = (k \<in> set (map fst kvs))"
| "has (JArr xs) k = (k = ''length'' \<or> k \<in> set (map nat_str [0..<length xs]))"
| "has v k = False"

text \<open>
  \<open>Reflect.has(o, name)\<close> is the \<open>in\<close> operator: it follows the prototype chain. The
  two option tables it is applied to are ordinary object literals, so the members of
  \<open>Object.prototype\<close> are reported as present too.
\<close>

definition object_prototype_names :: "string list" where
  "object_prototype_names =
     [''constructor'', ''hasOwnProperty'', ''isPrototypeOf'', ''propertyIsEnumerable'',
      ''toLocaleString'', ''toString'', ''valueOf'', ''__proto__'',
      ''__defineGetter__'', ''__defineSetter__'', ''__lookupGetter__'', ''__lookupSetter__'']"

definition Reflect_has :: "obj \<Rightarrow> string \<Rightarrow> bool" where
  "Reflect_has kvs name \<longleftrightarrow> name \<in> set (map fst kvs) \<or> name \<in> set object_prototype_names"

text \<open>
  The assignment \<open>o[name] = v\<close> on an ordinary object: an existing own property keeps
  its place in the enumeration order, a new one goes last. Assigning to \<open>__proto__\<close>
  runs the inherited setter and creates no own property.
\<close>

fun obj_set :: "('k \<times> 'v) list \<Rightarrow> 'k \<Rightarrow> 'v \<Rightarrow> ('k \<times> 'v) list" where
  "obj_set [] k v = [(k, v)]"
| "obj_set ((k', v') # kvs) k v =
     (if k' = k then (k, v) # kvs else (k', v') # obj_set kvs k v)"

definition assign_member :: "obj \<Rightarrow> string \<Rightarrow> jsval \<Rightarrow> obj" where
  "assign_member kvs k v = (if k = ''__proto__'' then kvs else obj_set kvs k v)"

text \<open>
  Modelled from the spec: \<open>util/assign.js\<close> is not among the sources. \<open>assign\<close>
  copies every own property of the source onto the target.
\<close>

fun assign :: "obj \<Rightarrow> obj \<Rightarrow> obj" where
  "assign target [] = target"
| "assign target ((k, v) # source) = assign (assign_member target k v) source"

text \<open>
  Modelled from the spec: \<open>util/defaults.js\<close> is not among the sources. \<open>defaults\<close>
  fills in, from the source, every property that the target does not own or whose
  value is \<open>undefined\<close>.
\<close>

fun defaults :: "obj \<Rightarrow> obj \<Rightarrow> obj" where
  "defaults target [] = target"
| "defaults target ((k, v) # source) =
     defaults
       (if obj_get target k = JUndefined \<or> k \<notin> set (map fst target)
        then assign_member target k v else target)
       source"

section \<open>Paths and the file system\<close>

definition basename :: "path \<Rightarrow> string" where
  "basename p = (if p = [] then [] else last p)"

definition dirname :: "path \<Rightarrow> path" where
  "dirname p = butlast p"

fun split_sep :: "string \<Rightarrow> string list" where
  "split_sep [] = [[]]"
| "split_sep (c # cs) =
     (if c = CHR ''/'' then [] # split_sep cs
      else (case split_sep cs of seg # segs \<Rightarrow> (c # seg) # segs | [] \<Rightarrow> [[c]]))"

text \<open>\<open>path.resolve(base, s)\<close> for an absolute \<open>base\<close> and a POSIX path string \<open>s\<close>.\<close>

definition resolve :: "path \<Rightarrow> string \<Rightarrow> path" where
  "resolve base s =
     fold (\<lambda>seg acc. if seg = [] \<or> seg = ''.'' then acc
                      else if seg = ''..'' then butlast acc
                      else acc @ [seg])
          (split_sep s)
          (case s of c # cs \<Rightarrow> (if c = CHR ''/'' then [] else base) | [] \<Rightarrow> base)"

text \<open>
  \<open>extname\<close> of a file name: the part from the last dot on, empty when there is no
  dot, when the only dot is the first character, and for \<open>..\<close>.
\<close>

definition extname :: "string \<Rightarrow> string" where
  "extname name =
     (if CHR ''.'' \<notin> set name then []
      else (let i = length name - length (takeWhile (\<lambda>c. c \<noteq> CHR ''.'') (rev name)) - 1
            in if i = 0 \<or> name = ''..'' then [] else drop i name))"

text \<open>
  Modelled from the spec: the file primitives (\<open>fs/read-file.js\<close>,
  \<open>fs/read-file-fast.js\<close>, \<open>fs/readdir.js\<close>, \<open>fs/remove-file.js\<close>,
  \<open>util/is-file.js\<close>) are not among the sources. They return \<open>null\<close> or the empty
  list for what is not there and never raise. The file system is the list of its
  nodes in directory order.
\<close>

datatype node = File string | Dir

type_synonym fs = "(path \<times> node) list"

definition readFile :: "fs \<Rightarrow> path \<Rightarrow> string option" where
  "readFile fs p = (case map_of fs p of Some (File c) \<Rightarrow> Some c | _ \<Rightarrow> None)"

definition readFileFast :: "fs \<Rightarrow> path \<Rightarrow> string option" where
  "readFileFast fs p = (case map_of fs p of Some (File c) \<Rightarrow> Some c | _ \<Rightarrow> None)"

definition isFile :: "fs \<Rightarrow> path \<Rightarrow> bool" where
  "isFile fs p = (case map_of fs p of Some (File c) \<Rightarrow> True | _ \<Rightarrow> False)"

definition readdir :: "fs \<Rightarrow> path \<Rightarrow> string list" where
  "readdir fs d = map (\<lambda>e. last (fst e)) (filter (\<lambda>e. fst e \<noteq> [] \<and> butlast (fst e) = d) fs)"

definition removeFile :: "fs \<Rightarrow> path \<Rightarrow> fs" where
  "removeFile fs p = filter (\<lambda>e. \<not> (fst e = p \<and> snd e \<noteq> Dir)) fs"

definition writeFile :: "fs \<Rightarrow> path \<Rightarrow> string \<Rightarrow> fs" where
  "writeFile fs p c =
     (if p \<in> set (map fst fs)
      then map (\<lambda>e. if fst e = p then (p, File c) else e) fs
      else fs @ [(p, File c)])"

section \<open>Constants and collaborators that are not among the sources\<close>

text \<open>
  The constant tables (\<open>constant/env.js\<close>, \<open>constant/esm.js\<close>,
  \<open>constant/package.js\<close>) and the external collaborators (the JSON parsers,
  \<open>semver.validRange\<close>, the module loader, \<open>toStringLiteral\<close>) are parameters.
  The parsers return \<open>null\<close> for a text they reject; the loader returns the exports
  of the module at a path, or raises.
\<close>

record env =
  DEVELOPMENT :: bool
  OPTIONS :: jsval
  NYC :: bool
  PKG_VERSION :: string
  OPTIONS_MODE_ALL :: jsval
  OPTIONS_MODE_AUTO :: jsval
  OPTIONS_MODE_STRICT :: jsval
  RANGE_ALL :: jsval
  toStringLiteral :: "string \<Rightarrow> string"
  parseJSON :: "string \<Rightarrow> jsval"
  parseJSON6 :: "string \<Rightarrow> jsval"
  validRange :: "jsval \<Rightarrow> jsval"
  loadESM :: "fs \<Rightarrow> path \<Rightarrow> error + jsval"
  cwd :: path

section \<open>Option records: \<open>createCJS\<close> and \<open>createOptions\<close>\<close>

definition defaultCJS :: obj where
  "defaultCJS =
     [(''cache'', JBool False), (''extensions'', JBool False), (''interop'', JBool False),
      (''mutableNamespace'', JBool False), (''namedExports'', JBool False),
      (''paths'', JBool False), (''topLevelReturn'', JBool False), (''vars'', JBool False)]"

definition defaultOptions :: "env \<Rightarrow> obj" where
  "defaultOptions w =
     [(''await'', JBool False), (''cache'', JBool True), (''cjs'', JObj defaultCJS),
      (''debug'', JBool False), (''mainFields'', JArr [JStr ''main'']),
      (''mode'', JStr ''strict''), (''sourceMap'', JUndefined),
      (''warnings'', JBool (DEVELOPMENT w))]"

definition autoOptions_cjs :: obj where
  "autoOptions_cjs =
     [(''cache'', JBool True), (''extensions'', JBool True), (''interop'', JBool True),
      (''mutableNamespace'', JBool True), (''namedExports'', JBool True),
      (''paths'', JBool True), (''topLevelReturn'', JBool False), (''vars'', JBool True)]"

definition autoOptions_mode :: jsval where
  "autoOptions_mode = JStr ''auto''"

text \<open>The loop of \<open>createCJS\<close> over the names of an object-like value.\<close>

fun createCJS_names :: "env \<Rightarrow> jsval \<Rightarrow> string list \<Rightarrow> obj \<Rightarrow> error + obj" where
  "createCJS_names w val [] options = Inr options"
| "createCJS_names w val (name # rest) options =
     (if Reflect_has defaultCJS name
      then createCJS_names w val rest
             (assign_member options name (JBool (truthy (js_prop val name))))
      else Inl (ERR_UNKNOWN_ESM_OPTION (''cjs['' @ toStringLiteral w name @ '']'')))"

definition createCJS :: "env \<Rightarrow> jsval \<Rightarrow> error + obj" where
  "createCJS w val =
     (if val = JUndefined then Inr (assign [] defaultCJS)
      else if isObjectLike val then
        (case createCJS_names w val (keys val) [] of
           Inl e \<Rightarrow> Inl e
         | Inr options \<Rightarrow> Inr (defaults options defaultCJS))
      else Inr (map (\<lambda>name. (name, JBool (truthy val))) (map fst defaultCJS)))"

text \<open>
  The loop of \<open>createOptions\<close> over \<open>possibleNames\<close>; the accumulator is the pair of
  \<open>names\<close> and \<open>options\<close>.
\<close>

fun createOptions_names ::
  "env \<Rightarrow> jsval \<Rightarrow> string list \<Rightarrow> string list \<Rightarrow> string list \<times> obj
     \<Rightarrow> error + string list \<times> obj" where
  "createOptions_names w val possibleNames [] acc = Inr acc"
| "createOptions_names w val possibleNames (name # rest) (names, options) =
     (if Reflect_has (defaultOptions w) name
      then createOptions_names w val possibleNames rest
             (names @ [name], assign_member options name (js_prop val name))
      else if name = ''sourcemap'' \<and> ''sourceMap'' \<notin> set possibleNames
      then (let sourcemap = js_prop val ''sourcemap'' in
            if sourcemap \<noteq> JUndefined
            then createOptions_names w val possibleNames rest
                   (names @ [''sourceMap''],
                    assign_member options ''sourceMap'' (JBool (truthy sourcemap)))
            else createOptions_names w val possibleNames rest (names, options))
      else Inl (ERR_UNKNOWN_ESM_OPTION name))"

text \<open>The three normalisation steps at the end of \<open>createOptions\<close>.\<close>

definition normalize_mainFields :: "obj \<Rightarrow> error + obj" where
  "normalize_mainFields options =
     (let mainFields = obj_get options ''mainFields''
      in case mainFields of
           JArr xs \<Rightarrow> Inr (assign_member options ''mainFields'' (JArr xs))
         | JStr s \<Rightarrow> Inr (assign_member options ''mainFields'' (JArr [JStr s]))
         | _ \<Rightarrow> Inl (ERR_INVALID_ESM_OPTION ''mainFields'' mainFields))"

definition normalize_mode :: "env \<Rightarrow> obj \<Rightarrow> error + obj" where
  "normalize_mode w options =
     (let mode = obj_get options ''mode''
      in if mode = JStr ''all''
         then Inr (assign_member options ''mode'' (OPTIONS_MODE_ALL w))
         else if mode = JStr ''auto''
         then Inr (assign_member options ''mode'' (OPTIONS_MODE_AUTO w))
         else if mode = JStr ''strict''
         then Inr (assign_member options ''mode'' (OPTIONS_MODE_STRICT w))
         else Inl (ERR_INVALID_ESM_OPTION ''mode'' mode))"

definition coerce_flags :: "obj \<Rightarrow> obj" where
  "coerce_flags options =
     (let options1 = (case obj_get options ''cache'' of
                        JStr s \<Rightarrow> options
                      | c \<Rightarrow> assign_member options ''cache'' (JBool (truthy c)));
          options2 = assign_member options1 ''debug'' (JBool (truthy (obj_get options1 ''debug'')))
      in assign_member options2 ''warnings'' (JBool (truthy (obj_get options2 ''warnings''))))"

definition createOptions :: "env \<Rightarrow> jsval \<Rightarrow> error + obj" where
  "createOptions w val =
     (case (case val of
              JStr s \<Rightarrow> Inr ([''mode''], [(''mode'', val)])
            | _ \<Rightarrow> createOptions_names w val (keys val) (keys val) ([], [])) of
        Inl e \<Rightarrow> Inl e
      | Inr (names, options0) \<Rightarrow>
          (let options1 = (if ''cjs'' \<notin> set names
                           then assign_member options0 ''cjs'' (JObj autoOptions_cjs)
                           else options0);
               options2 = (if ''mode'' \<notin> set names
                           then assign_member options1 ''mode'' autoOptions_mode
                           else options1)
           in case createCJS w (obj_get options2 ''cjs'') of
                Inl e \<Rightarrow> Inl e
              | Inr cjsOptions \<Rightarrow>
                  (let options3 = defaults options2 (defaultOptions w);
                       options4 = assign_member options3 ''cjs'' (JObj cjsOptions)
                   in case normalize_mainFields options4 of
                        Inl e \<Rightarrow> Inl e
                      | Inr options5 \<Rightarrow>
                          (case normalize_mode w options5 of
                             Inl e \<Rightarrow> Inl e
                           | Inr options6 \<Rightarrow> Inr (coerce_flags options6)))))"

section \<open>The caching compiler\<close>

text \<open>
  The translator (\<open>compiler.compile\<close>) and \<open>gzip\<close> are external collaborators and
  are parameters. A cache is a keyed collection with \<open>set\<close> and \<open>keys\<close>, kept as the
  list of its entries in insertion order; caches are shared objects, addressed by a
  number. File names of cache entries are single path segments.
\<close>

record compile_result =
  rtype :: string
  rcode :: string

record pkg_options =
  po_esm :: jsval
  po_cjs :: jsval
  po_ext :: jsval
  po_var :: jsval

record pkg_info =
  pi_cache :: nat
  pi_dirPath :: path
  pi_options :: pkg_options

record compiler_options =
  filePath :: "path option"
  cachePath :: path
  cacheFileName :: string
  pkgInfo :: pkg_info
  runtimeAlias :: jsval

record translate_options =
  to_cjs :: jsval
  to_ext :: jsval
  to_runtimeAlias :: jsval
  to_type :: string
  to_var :: jsval

record compiler_env =
  translate :: "string \<Rightarrow> translate_options \<Rightarrow> error + compile_result"
  gzip :: "string \<Rightarrow> string"

text \<open>
  A deferred write as \<open>writeFileDefer\<close> receives it: the file path, the lazy content,
  the write options, and what the completion callback of \<open>compileAndWrite\<close> has
  captured (the cache, the cache path and the entry's file name).
\<close>

record deferred_write =
  dw_path :: path
  dw_content :: "unit \<Rightarrow> string"
  dw_encoding :: "string option"
  dw_scopePath :: path
  dw_cache :: nat
  dw_cachePath :: path
  dw_cacheFileName :: string

record compiler_state =
  caches :: "nat \<Rightarrow> (string \<times> compile_result) list"
  disk :: fs
  pending :: "deferred_write list"

definition toCompileOptions :: "compiler_options \<Rightarrow> translate_options" where
  "toCompileOptions options =
     (let pkgOptions = pi_options (pkgInfo options);
          ty = (if (case filePath options of
                      Some fp \<Rightarrow> extname (basename fp) = ''.mjs''
                    | None \<Rightarrow> False)
                then ''module''
                else if po_esm pkgOptions = JStr ''js'' then ''unambiguous''
                else ''script'')
      in \<lparr>to_cjs = po_cjs pkgOptions, to_ext = po_ext pkgOptions,
          to_runtimeAlias = runtimeAlias options, to_type = ty,
          to_var = po_var pkgOptions\<rparr>)"

definition compileAndCache ::
  "compiler_env \<Rightarrow> string \<Rightarrow> compiler_options \<Rightarrow> compiler_state
     \<Rightarrow> (error + compile_result) \<times> compiler_state" where
  "compileAndCache ce code options st =
     (case translate ce code (toCompileOptions options) of
        Inl e \<Rightarrow> (Inl e, st)
      | Inr result \<Rightarrow>
          (let c = pi_cache (pkgInfo options)
           in (Inr result,
               st\<lparr>caches := (caches st)(c := obj_set (caches st c) (cacheFileName options) result)\<rparr>)))"

text \<open>
  Modelled from the spec: \<open>fs/write-file-defer.js\<close> is not among the sources. The write
  is deferred: issuing it only records it. When it later completes, the file is written
  if the write succeeds, and the callback is called with the outcome.
\<close>

definition writeFileDefer :: "compiler_state \<Rightarrow> deferred_write \<Rightarrow> compiler_state" where
  "writeFileDefer st wr = st\<lparr>pending := pending st @ [wr]\<rparr>"

definition startsWith :: "string \<Rightarrow> string \<Rightarrow> bool" where
  "startsWith key s \<longleftrightarrow> take (length s) key = s"




definition compileAndWrite ::
  "compiler_env \<Rightarrow> string \<Rightarrow> compiler_options \<Rightarrow> compiler_state
     \<Rightarrow> (error + compile_result) \<times> compiler_state" where
  "compileAndWrite ce code options st =
     (case compileAndCache ce code options st of
        (Inl e, st1) \<Rightarrow> (Inl e, st1)
      | (Inr result, st1) \<Rightarrow>
          (if rtype result \<noteq> ''module'' then (Inr result, st1)
           else (let cacheFilePath = cachePath options @ [cacheFileName options];
                     output = rcode result;
                     isGzipped = (extname (basename cacheFilePath) = ''.gz'');
                     content = (\<lambda>u::unit. if isGzipped then gzip ce output else output);
                     encoding = (if isGzipped then None else Some ''utf8'');
                     pkgInfo = pkgInfo options;
                     scopePath = pi_dirPath pkgInfo
                 in (Inr result,
                     writeFileDefer st1
                       \<lparr>dw_path = cacheFilePath, dw_content = content, dw_encoding = encoding,
                        dw_scopePath = scopePath, dw_cache = pi_cache pkgInfo,
                        dw_cachePath = cachePath options,
                        dw_cacheFileName = cacheFileName options\<rparr>))))"

definition compileWithFilename ::
  "compiler_env \<Rightarrow> string \<Rightarrow> compiler_options \<Rightarrow> compiler_state
     \<Rightarrow> (error + compile_result) \<times> compiler_state" where
  "compileWithFilename ce code options st =
     (case compileAndWrite ce code options st of
        (Inl e, st1) \<Rightarrow>
          (Inl (case filePath options of Some fp \<Rightarrow> WithFilename fp e | None \<Rightarrow> e), st1)
      | (Inr result, st1) \<Rightarrow> (Inr result, st1))"

text \<open>
  \<open>Compiler.compile\<close>, on options that \<open>util/create-options.js\<close> (not among the
  sources) has already normalised.
\<close>

definition compile ::
  "compiler_env \<Rightarrow> string \<Rightarrow> compiler_options \<Rightarrow> compiler_state
     \<Rightarrow> (error + compile_result) \<times> compiler_state" where
  "compile ce code options st =
     (if filePath options \<noteq> None then compileWithFilename ce code options st
      else compileAndCache ce code options st)"

section \<open>Packages and their caches\<close>

text \<open>
  A cache path is \<open>None\<close> for the empty string. The cache object of a package is the
  entry of the registry \<open>shared.package.dir\<close> at its cache path: the constructor takes
  it from there and entries of the registry are never replaced, so a package refers to
  its cache through \<open>pkg_cachePath\<close>. Packages are objects on a heap; a reference is
  an index into it.
\<close>

type_synonym cpath = "path option"

record cache_obj =
  buffer :: "string option"
  compile_index :: "obj option"
  cmap :: jsval

record package =
  pkg_cachePath :: cpath
  pkg_dirPath :: path
  pkg_options :: obj
  pkg_range :: jsval

record state =
  memo :: "path \<rightharpoonup> nat option"
  default_pkg :: "nat option"
  heap :: "package list"
  dir_reg :: "cpath \<rightharpoonup> cache_obj"
  root_reg :: "path \<rightharpoonup> path"
  files :: fs
  parseOnly :: bool
  parsing :: bool

text \<open>
  Modelled from the spec: \<open>fs/read-json.js\<close> and \<open>fs/read-json6.js\<close> are not among
  the sources. They read a file and parse it, and return \<open>null\<close> when the file is
  missing.
\<close>

definition readJSON :: "env \<Rightarrow> fs \<Rightarrow> path \<Rightarrow> jsval" where
  "readJSON w fs p = (case readFile fs p of None \<Rightarrow> JNull | Some txt \<Rightarrow> parseJSON w txt)"

definition readJSON6 :: "env \<Rightarrow> fs \<Rightarrow> path \<Rightarrow> jsval" where
  "readJSON6 w fs p = (case readFile fs p of None \<Rightarrow> JNull | Some txt \<Rightarrow> parseJSON6 w txt)"

definition clearBabelCache :: "fs \<Rightarrow> path \<Rightarrow> fs" where
  "clearBabelCache fs cPath =
     (let babelCachePath = resolve cPath ''../@babel/register'';
          cacheNames = readdir fs babelCachePath
      in fold (\<lambda>cacheName fs'. if extname cacheName = ''.json''
                                then removeFile fs' (babelCachePath @ [cacheName])
                                else fs')
              cacheNames fs)"

text \<open>The scan of the cache directory in the constructor; it stops at \<open>.dirty\<close>.\<close>

record scan =
  compileCache :: obj
  hasBuffer :: bool
  hasDirtyMarker :: bool
  hasMap :: bool
  hasNycMarker :: bool

definition scan_init :: scan where
  "scan_init = \<lparr>compileCache = [], hasBuffer = False, hasDirtyMarker = False,
                 hasMap = False, hasNycMarker = False\<rparr>"

fun scan_names :: "string list \<Rightarrow> scan \<Rightarrow> scan" where
  "scan_names [] sc = sc"
| "scan_names (cacheName # rest) sc =
     (if (case cacheName of c # cs \<Rightarrow> c \<noteq> CHR ''.'' | [] \<Rightarrow> True)
      then scan_names rest (sc\<lparr>compileCache := obj_set (compileCache sc) cacheName (JBool True)\<rparr>)
      else if cacheName = ''.data.blob'' then scan_names rest (sc\<lparr>hasBuffer := True\<rparr>)
      else if cacheName = ''.data.json'' then scan_names rest (sc\<lparr>hasMap := True\<rparr>)
      else if cacheName = ''.dirty'' then sc\<lparr>hasDirtyMarker := True\<rparr>
      else if cacheName = ''.nyc'' then scan_names rest (sc\<lparr>hasNycMarker := True\<rparr>)
      else scan_names rest sc)"

text \<open>
  The part of the constructor that fills a cache object registered for a non-empty cache
  path that had none. It raises when \<open>.data.json\<close> is listed but cannot be read.
\<close>

definition load_cache :: "env \<Rightarrow> fs \<Rightarrow> path \<Rightarrow> error + cache_obj \<times> fs" where
  "load_cache w fs cPath =
     (let cacheNames = readdir fs cPath;
          sc = scan_names cacheNames scan_init;
          hasNycNoMarker = (NYC w \<and> \<not> hasNycMarker sc);
          noNycHasMarker = (\<not> NYC w \<and> hasNycMarker sc);
          isCacheInvalid0 = (hasDirtyMarker sc \<or> hasNycNoMarker \<or> noNycHasMarker);
          dataJSON = (if hasMap sc \<and> \<not> isCacheInvalid0
                      then readJSON w fs (cPath @ [''.data.json'']) else JUndefined)
      in if hasMap sc \<and> \<not> isCacheInvalid0 \<and> (dataJSON = JNull \<or> dataJSON = JUndefined)
         then Inl TypeError
         else
           (let isCacheInvalid = (if hasMap sc \<and> \<not> isCacheInvalid0
                                  then js_prop dataJSON ''version'' \<noteq> JStr (PKG_VERSION w)
                                  else isCacheInvalid0);
                fs1 = (if hasDirtyMarker sc then removeFile fs (cPath @ [''.dirty'']) else fs);
                fs2 = (if noNycHasMarker then removeFile fs1 (cPath @ [''.nyc'']) else fs1);
                compileCache1 = (if isCacheInvalid then [] else compileCache sc);
                hasBuffer1 = (if isCacheInvalid then False else hasBuffer sc);
                hasMap1 = (if isCacheInvalid then False else hasMap sc);
                fs3 = (if isCacheInvalid then clearBabelCache fs2 cPath else fs2)
            in Inr (\<lparr>buffer = (if hasBuffer1 then readFile fs3 (cPath @ [''.data.blob''])
                                else Some []),
                      compile_index = Some compileCache1,
                      cmap = (if hasMap1 then js_prop dataJSON ''map'' else JObj [])\<rparr>,
                    fs3)))"

text \<open>The cache path that the constructor derives from the directory and the options.\<close>

definition cachePath_of :: "path \<Rightarrow> obj \<Rightarrow> cpath" where
  "cachePath_of dirPath opts =
     (case obj_get opts ''cache'' of
        JStr c \<Rightarrow> Some (resolve dirPath c)
      | v \<Rightarrow> (if v \<noteq> JBool False
              then Some (dirPath @ [''node_modules'', ''.cache'', ''esm''])
              else None))"

text \<open>\<open>new Package(dirPath, range, options)\<close>: the reference of the new object.\<close>

definition Package_new ::
  "env \<Rightarrow> state \<Rightarrow> path \<Rightarrow> jsval \<Rightarrow> jsval \<Rightarrow> (error + nat) \<times> state" where
  "Package_new w s dirPath rng options =
     (case createOptions w options of
        Inl e \<Rightarrow> (Inl e, s)
      | Inr opts \<Rightarrow>
          (let cPath = cachePath_of dirPath opts;
               created = (case dir_reg s cPath of
                  Some cache \<Rightarrow> Inr s
                | None \<Rightarrow>
                    (let s1 = s\<lparr>dir_reg := (dir_reg s)(cPath \<mapsto>
                                  \<lparr>buffer = None, compile_index = None, cmap = JNull\<rparr>)\<rparr>
                     in case cPath of
                          None \<Rightarrow>
                            Inr (s1\<lparr>dir_reg := (dir_reg s1)(cPath \<mapsto>
                                  \<lparr>buffer = None, compile_index = Some [], cmap = JNull\<rparr>)\<rparr>)
                        | Some cp \<Rightarrow>
                            (case load_cache w (files s1) cp of
                               Inl e \<Rightarrow> Inl (e, s1)
                             | Inr (cache, fs') \<Rightarrow>
                                 Inr (s1\<lparr>dir_reg := (dir_reg s1)(cPath \<mapsto> cache),
                                        files := fs'\<rparr>))))
           in case created of
                Inl (e, s') \<Rightarrow> (Inl e, s')
              | Inr s' \<Rightarrow>
                  (Inr (length (heap s')),
                   s'\<lparr>heap := heap s' @
                          [\<lparr>pkg_cachePath = cPath, pkg_dirPath = dirPath,
                            pkg_options = opts, pkg_range = rng\<rparr>]\<rparr>)))"

text \<open>
  Modelled from the spec: the cache's \<open>get\<close> is not among the sources. It looks an entry
  name up in the index and is \<open>undefined\<close> for a name the index does not hold.
\<close>

definition cache_get :: "cache_obj \<Rightarrow> string \<Rightarrow> jsval" where
  "cache_get cache name =
     (case compile_index cache of None \<Rightarrow> JUndefined | Some idx \<Rightarrow> obj_get idx name)"

section \<open>Resolution: \<open>findRoot\<close>, \<open>getRoot\<close>, \<open>getRange\<close>, \<open>readInfo\<close>, \<open>getInfo\<close>\<close>

function findRoot :: "fs \<Rightarrow> path \<Rightarrow> path option" where
  "findRoot fs dirPath =
     (if basename dirPath = ''node_modules'' \<or> isFile fs (dirPath @ [''package.json''])
      then Some dirPath
      else (let parentPath = dirname dirPath
            in if parentPath = dirPath then None
               else if basename parentPath = ''node_modules'' then Some dirPath
               else findRoot fs parentPath))"
  by pat_completeness auto
termination
proof (relation "measure (\<lambda>(fs, p). length p)")
  fix fs :: fs and dirPath :: path and x :: path
  assume "x = dirname dirPath" and "x \<noteq> dirPath"
  then have "dirPath \<noteq> []" by (auto simp: dirname_def)
  then show "((fs, x), (fs, dirPath)) \<in> measure (\<lambda>(fs, p). length p)"
    using \<open>x = dirname dirPath\<close> by (simp add: dirname_def)
qed simp

declare findRoot.simps [simp del]

definition getRoot :: "state \<Rightarrow> path \<Rightarrow> path \<times> state" where
  "getRoot s dirPath =
     (case root_reg s dirPath of
        Some cached \<Rightarrow> (cached, s)
      | None \<Rightarrow>
          (let r = (case findRoot (files s) dirPath of Some p \<Rightarrow> p | None \<Rightarrow> dirPath)
           in (r, s\<lparr>root_reg := (root_reg s)(dirPath \<mapsto> r)\<rparr>)))"

definition getRange :: "env \<Rightarrow> jsval \<Rightarrow> string \<Rightarrow> jsval" where
  "getRange w json name =
     (if has json name
      then (let object = js_prop json name
            in if has object ''esm'' then validRange w (js_prop object ''esm'') else JNull)
      else JNull)"

text \<open>
  Modelled from the spec: \<open>module/_find-path.js\<close> is not among the sources. The
  activation file in its co-located form is the first of \<open>.esmrc.mjs\<close>, \<open>.esmrc.js\<close>,
  \<open>.esmrc.json\<close> that is a file of the directory.
\<close>

definition searchExts :: "string list" where
  "searchExts = [''.mjs'', ''.js'', ''.json'']"

definition findPath :: "fs \<Rightarrow> string \<Rightarrow> path \<Rightarrow> string list \<Rightarrow> path option" where
  "findPath fs request dirPath exts =
     (case filter (\<lambda>ext. isFile fs (dirPath @ [request @ ext])) exts of
        [] \<Rightarrow> None
      | ext # _ \<Rightarrow> Some (dirPath @ [request @ ext]))"

text \<open>
  \<open>readInfo\<close>, first part (up to the read of the manifest): the activation file. The
  result is the state, \<open>optionsFound\<close>, \<open>options\<close> and \<open>pkg\<close> (the package that the
  script form of the activation file has already built), or what was raised. The
  loader does not touch the state; the two flags of \<open>shared.moduleState\<close> are reset
  for the load and restored after it.
\<close>

definition readInfo_options ::
  "env \<Rightarrow> state \<Rightarrow> path \<Rightarrow> error \<times> state + state \<times> bool \<times> jsval \<times> nat option" where
  "readInfo_options w s dirPath =
     (let content = readFile (files s) (dirPath @ [''.esmrc'']);
          optionsFound = (content \<noteq> None);
          options = (case content of Some txt \<Rightarrow> parseJSON6 w txt | None \<Rightarrow> JNull);
          optionsPath = (if optionsFound then None
                         else findPath (files s) ''.esmrc'' dirPath searchExts)
      in case optionsPath of
           None \<Rightarrow> Inr (s, optionsFound, options, None)
         | Some optPath \<Rightarrow>
             (if extname (basename optPath) = ''.json''
              then Inr (s, True, readJSON6 w (files s) optPath, None)
              else
                (let s1 = s\<lparr>parseOnly := False, parsing := False\<rparr>
                 in case Package_new w s1 dirPath (RANGE_ALL w) JUndefined of
                      (Inl e, s2) \<Rightarrow> Inl (e, s2)
                    | (Inr pkg, s2) \<Rightarrow>
                        (let s3 = s2\<lparr>memo := (memo s2)(dirPath \<mapsto> Some pkg)\<rparr>;
                             restore = (\<lambda>st. st\<lparr>parseOnly := parseOnly s, parsing := parsing s\<rparr>)
                         in case (case loadESM w (files s3) optPath of
                                    Inl e \<Rightarrow> Inl e
                                  | Inr exports \<Rightarrow> createOptions w exports) of
                              Inl e \<Rightarrow> Inl (e, restore s3)
                            | Inr opts \<Rightarrow>
                                Inr (restore
                                       (s3\<lparr>heap := (heap s3)
                                              [pkg := (heap s3 ! pkg)\<lparr>pkg_options := opts\<rparr>]\<rparr>),
                                     True, options, Some pkg)))))"

text \<open>\<open>parseJSON(pkgJSON)\<close> on the variable that holds the manifest text.\<close>

definition parse_text :: "env \<Rightarrow> jsval \<Rightarrow> jsval" where
  "parse_text w v = (case v of JStr txt \<Rightarrow> parseJSON w txt | _ \<Rightarrow> JNull)"

text \<open>
  \<open>readInfo\<close>, last part (after the parent has been asked): the options of the
  manifest, the version range, and the package. \<open>pkgJSON\<close> is the variable of the
  source: the text of the manifest, \<open>null\<close>, or the parsed manifest.
\<close>

definition readInfo_finish ::
  "env \<Rightarrow> state \<Rightarrow> path \<Rightarrow> bool \<Rightarrow> bool \<Rightarrow> jsval \<Rightarrow> nat option \<Rightarrow> nat option \<Rightarrow> jsval
     \<Rightarrow> (error + nat option) \<times> state" where
  "readInfo_finish w s dirPath force optionsFound0 options0 pkg parentPkg pkgJSON0 =
     (let parseNow = (\<not> optionsFound0 \<and> pkgJSON0 \<noteq> JNull);
          pkgParsed1 = parseNow;
          pkgJSON1 = (if parseNow then parse_text w pkgJSON0 else pkgJSON0);
          esmField = (parseNow \<and> has pkgJSON1 ''esm'');
          optionsFound = (if esmField then True else optionsFound0);
          options1 = (if esmField then js_prop pkgJSON1 ''esm'' else options0);
          parseLate = (\<not> force \<and> parentPkg = None \<and> \<not> pkgParsed1 \<and> pkgJSON1 \<noteq> JNull);
          pkgParsed = (if parseLate then True else pkgParsed1);
          pkgJSON = (if parseLate then parse_text w pkgJSON1 else pkgJSON1);
          rng = (if force then Some (RANGE_ALL w)
                 else (case parentPkg of
                         Some parent \<Rightarrow> Some (pkg_range (heap s ! parent))
                       | None \<Rightarrow>
                           (let r = js_or (getRange w pkgJSON ''dependencies'')
                                          (getRange w pkgJSON ''peerDependencies'')
                            in if r = JNull
                               then (if optionsFound \<or> truthy (getRange w pkgJSON ''devDependencies'')
                                     then Some (RANGE_ALL w) else None)
                               else Some r)))
      in case rng of
           None \<Rightarrow> (Inr None, s)
         | Some r \<Rightarrow>
             (case pkg of
                Some p \<Rightarrow>
                  (Inr (Some p), s\<lparr>heap := (heap s)[p := (heap s ! p)\<lparr>pkg_range := r\<rparr>]\<rparr>)
              | None \<Rightarrow>
                  (let options = (if options1 = JBool True \<or> \<not> optionsFound
                                  then OPTIONS w else options1);
                       rooted = (if \<not> pkgParsed \<and> pkgJSON = JNull
                                 then getRoot s dirPath else (dirPath, s))
                   in case Package_new w (snd rooted) (fst rooted) r options of
                        (Inl e, s') \<Rightarrow> (Inl e, s')
                      | (Inr p, s') \<Rightarrow> (Inr (Some p), s'))))"

text \<open>
  \<open>getInfo\<close> and \<open>readInfo\<close> call each other up the directories. The first argument
  bounds the depth of the calls; \<open>None\<close> is a computation that needs more.
\<close>

fun getInfo :: "nat \<Rightarrow> env \<Rightarrow> state \<Rightarrow> path \<Rightarrow> bool \<Rightarrow> ((error + nat option) \<times> state) option"
and readInfo :: "nat \<Rightarrow> env \<Rightarrow> state \<Rightarrow> path \<Rightarrow> bool \<Rightarrow> ((error + nat option) \<times> state) option"
where
  "getInfo 0 w s dirPath force = None"
| "getInfo (Suc n) w s dirPath force =
     (case (case memo s dirPath of
              Some pkg \<Rightarrow> (if \<not> force \<or> pkg \<noteq> None then Some pkg else None)
            | None \<Rightarrow> None) of
        Some pkg \<Rightarrow> Some (Inr pkg, s)
      | None \<Rightarrow>
          (if basename dirPath = ''node_modules''
           then Some (Inr None, s\<lparr>memo := (memo s)(dirPath \<mapsto> None)\<rparr>)
           else
             (case readInfo n w s dirPath False of
                None \<Rightarrow> None
              | Some (Inl e, s1) \<Rightarrow> Some (Inl e, s1)
              | Some (Inr pkg1, s1) \<Rightarrow>
                  (case (if pkg1 = None \<and> dirname dirPath \<noteq> dirPath
                         then getInfo n w s1 (dirname dirPath) False
                         else Some (Inr pkg1, s1)) of
                     None \<Rightarrow> None
                   | Some (Inl e, s2) \<Rightarrow> Some (Inl e, s2)
                   | Some (Inr pkg2, s2) \<Rightarrow>
                       (case (if force \<and> pkg2 = None
                              then readInfo n w s2 dirPath force
                              else Some (Inr pkg2, s2)) of
                          None \<Rightarrow> None
                        | Some (Inl e, s3) \<Rightarrow> Some (Inl e, s3)
                        | Some (Inr pkg3, s3) \<Rightarrow>
                            Some (Inr pkg3, s3\<lparr>memo := (memo s3)(dirPath \<mapsto> pkg3)\<rparr>))))))"
| "readInfo 0 w s dirPath force = None"
| "readInfo (Suc n) w s dirPath force =
     (case readInfo_options w s dirPath of
        Inl (e, s1) \<Rightarrow> Some (Inl e, s1)
      | Inr (s1, optionsFound, options, pkg) \<Rightarrow>
          (let pkgJSON = (case readFileFast (files s1) (dirPath @ [''package.json'']) of
                            None \<Rightarrow> JNull
                          | Some txt \<Rightarrow> JStr txt)
           in if \<not> force \<and> pkgJSON = JNull
              then (if optionsFound
                    then (case getInfo n w s1 (dirname dirPath) False of
                            None \<Rightarrow> None
                          | Some (Inl e, s2) \<Rightarrow> Some (Inl e, s2)
                          | Some (Inr parentPkg, s2) \<Rightarrow>
                              Some (readInfo_finish w s2 dirPath force optionsFound options
                                      pkg parentPkg pkgJSON))
                    else Some (Inr None, s1))
              else Some (readInfo_finish w s1 dirPath force optionsFound options
                           pkg None pkgJSON)))"

text \<open>
  \<open>Package.get\<close> and \<open>Package.set\<close>. The directory argument is \<open>"."\<close> or an absolute
  path.
\<close>

datatype dir_arg = Dot | Abs path

definition Package_get ::
  "nat \<Rightarrow> env \<Rightarrow> state \<Rightarrow> dir_arg \<Rightarrow> bool \<Rightarrow> ((error + nat option) \<times> state) option" where
  "Package_get n w s d force =
     (let dirPath = (case d of Dot \<Rightarrow> cwd w | Abs p \<Rightarrow> p)
      in case getInfo n w s dirPath force of
           None \<Rightarrow> None
         | Some (Inl e, s') \<Rightarrow> Some (Inl e, s')
         | Some (Inr pkg, s') \<Rightarrow>
             Some (Inr (case pkg of Some p \<Rightarrow> Some p | None \<Rightarrow> default_pkg s'), s'))"

definition Package_set :: "state \<Rightarrow> path \<Rightarrow> nat option \<Rightarrow> state" where
  "Package_set s dirPath pkg = s\<lparr>memo := (memo s)(dirPath \<mapsto> pkg)\<rparr>"

section \<open>Auxiliary notions for the proofs\<close>

text \<open>
  The records that \<open>createCJS\<close> and \<open>createOptions\<close> return: the names are distinct,
  none is \<open>__proto__\<close>, each is one that \<open>Reflect.has\<close> finds in the table of
  defaults, every name of the table is there, and the members that the functions coerce
  hold values of the coerced kind.
\<close>

definition is_bool :: "jsval \<Rightarrow> bool" where
  "is_bool v = (case v of JBool b \<Rightarrow> True | _ \<Rightarrow> False)"

definition cjs_record :: "obj \<Rightarrow> bool" where
  "cjs_record c \<longleftrightarrow>
     distinct (map fst c) \<and> ''__proto__'' \<notin> fst ` set c \<and>
     list_all (\<lambda>k. Reflect_has defaultCJS k) (map fst c) \<and>
     list_all (\<lambda>k. k \<in> fst ` set c) (map fst defaultCJS) \<and>
     list_all is_bool (map snd c)"

definition known_obj :: "obj \<Rightarrow> obj \<Rightarrow> bool" where
  "known_obj table options \<longleftrightarrow>
     distinct (map fst options) \<and> ''__proto__'' \<notin> fst ` set options \<and>
     list_all (\<lambda>k. Reflect_has table k) (map fst options)"

definition options_record :: "env \<Rightarrow> obj \<Rightarrow> bool" where
  "options_record w r \<longleftrightarrow>
     known_obj (defaultOptions w) r \<and>
     list_all (\<lambda>k. k \<in> fst ` set r) (map fst (defaultOptions w)) \<and>
     (case obj_get r ''cjs'' of JObj c \<Rightarrow> cjs_record c | _ \<Rightarrow> False) \<and>
     (case obj_get r ''mainFields'' of JArr xs \<Rightarrow> True | _ \<Rightarrow> False) \<and>
     (case obj_get r ''cache'' of JStr s \<Rightarrow> True | JBool b \<Rightarrow> True | _ \<Rightarrow> False) \<and>
     is_bool (obj_get r ''debug'') \<and> is_bool (obj_get r ''warnings'') \<and>
     obj_get r ''await'' \<noteq> JUndefined"

text \<open>
  Sample values for the parameters: the mode constants are the numbers 1, 2, 3, the
  all-versions range is \<open>*\<close>, the manifest parser knows one manifest that declares the tool
  under \<open>devDependencies\<close> only and one cache metadata file stamped with version 2.0.0,
  and the relaxed parser knows the empty options record.
\<close>

definition example_manifest :: jsval where
  "example_manifest = JObj [(''devDependencies'', JObj [(''esm'', JStr ''^3.0.0'')])]"

definition example_env :: env where
  "example_env =
     \<lparr>DEVELOPMENT = False, OPTIONS = JUndefined, NYC = False, PKG_VERSION = ''3.0.0'',
      OPTIONS_MODE_ALL = JNum 1, OPTIONS_MODE_AUTO = JNum 2, OPTIONS_MODE_STRICT = JNum 3,
      RANGE_ALL = JStr ''*'',
      toStringLiteral = (\<lambda>s. [CHR 0x22] @ s @ [CHR 0x22]),
      parseJSON = (\<lambda>txt. if txt = ''{devDependencies:{esm:^3.0.0}}'' then example_manifest
                          else if txt = ''{version:2.0.0,map:{}}''
                          then JObj [(''version'', JStr ''2.0.0''), (''map'', JObj [])]
                          else JNull),
      parseJSON6 = (\<lambda>txt. if txt = ''{}'' then JObj [] else JNull),
      validRange = (\<lambda>v. if v = JStr ''^3.0.0'' then JStr ''>=3.0.0 <4.0.0'' else JNull),
      loadESM = (\<lambda>fs p. Inl (LoadError ''not loaded'')),
      cwd = [''app'']\<rparr>"

definition example_state :: "fs \<Rightarrow> state" where
  "example_state fs =
     \<lparr>memo = Map.empty, default_pkg = None, heap = [], dir_reg = Map.empty,
      root_reg = Map.empty, files = fs, parseOnly = False, parsing = False\<rparr>"


text \<open>
  A sample for the caching compiler: a translator that tags its result with the type it
  was asked for, a cache with three entries of which two share the first eight
  characters of their names, two files on disk, and one pending write.
\<close>

definition example_write :: deferred_write where
  "example_write =
     \<lparr>dw_path = [''app'', ''cache'', ''0123abcd-new.js''], dw_content = (\<lambda>u. ''new code''),
      dw_encoding = Some ''utf8'', dw_scopePath = [''app''], dw_cache = 0,
      dw_cachePath = [''app'', ''cache''], dw_cacheFileName = ''0123abcd-new.js''\<rparr>"

definition example_compiler_state :: compiler_state where
  "example_compiler_state =
     \<lparr>caches = (\<lambda>c. if c = 0
                      then [(''0123abcd-old.js'', \<lparr>rtype = ''module'', rcode = ''old code''\<rparr>),
                            (''89efcdab-one.js'', \<lparr>rtype = ''module'', rcode = ''other code''\<rparr>),
                            (''0123abcd-new.js'', \<lparr>rtype = ''module'', rcode = ''new code''\<rparr>)]
                      else []),
      disk = [([''app'', ''cache'', ''0123abcd-old.js''], File ''old code''),
              ([''app'', ''cache'', ''89efcdab-one.js''], File ''other code'')],
      pending = [example_write]\<rparr>"

definition example_compiler_env :: compiler_env where
  "example_compiler_env =
     \<lparr>translate = (\<lambda>code opts. Inr \<lparr>rtype = to_type opts, rcode = code\<rparr>),
      gzip = (\<lambda>s. ''gz:'' @ s)\<rparr>"

definition example_compiler_options :: "string \<Rightarrow> compiler_options" where
  "example_compiler_options file =
     \<lparr>filePath = Some [''app'', file], cachePath = [''app'', ''cache''],
      cacheFileName = ''0123abcd-new.js'',
      pkgInfo = \<lparr>pi_cache = 0, pi_dirPath = [''app''],
                 pi_options = \<lparr>po_esm = JStr ''mjs'', po_cjs = JBool False,
                                po_ext = JBool False, po_var = JBool False\<rparr>\<rparr>,
      runtimeAlias = JStr ''_''\<rparr>"

text \<open>
  Two sample cache directories of the package at \<open>/app\<close>: one whose metadata is
  stamped with another version, and one that holds both markers.
\<close>

definition example_cache_dir :: path where
  "example_cache_dir = [''app'', ''node_modules'', ''.cache'', ''esm'']"

definition example_stale_files :: fs where
  "example_stale_files =
     [(example_cache_dir @ [''0123abcd-old.js''], File ''old code''),
      (example_cache_dir @ [''.data.blob''], File ''blob''),
      (example_cache_dir @ [''.data.json''], File ''{version:2.0.0,map:{}}'')]"

definition example_marker_files :: fs where
  "example_marker_files =
     [(example_cache_dir @ [''0123abcd-old.js''], File ''old code''),
      (example_cache_dir @ [''.nyc''], File []),
      (example_cache_dir @ [''.dirty''], File [])]"

text \<open>A cache directory that lists \<open>.dirty\<close> before \<open>.nyc\<close>.\<close>

definition example_dirty_first_files :: fs where
  "example_dirty_first_files =
     [(example_cache_dir @ [''.dirty''], File []),
      (example_cache_dir @ [''.nyc''], File [])]"

text \<open>
  A project whose manifest declares the tool under \<open>devDependencies\<close> only; the same
  project with an options file \<open>.esmrc\<close>, with \<open>.esmrc.json\<close> and with the script
  \<open>.esmrc.js\<close>; the options record that \<open>createOptions\<close> returns when no options are
  given; and the state after the first project has been resolved.
\<close>

definition example_dev_files :: fs where
  "example_dev_files = [([''app'', ''package.json''], File ''{devDependencies:{esm:^3.0.0}}'')]"

definition example_rc_files :: fs where
  "example_rc_files =
     [([''app'', ''package.json''], File ''{devDependencies:{esm:^3.0.0}}''),
      ([''app'', ''.esmrc''], File ''{}'')]"

definition example_rc_json_files :: fs where
  "example_rc_json_files =
     [([''app'', ''package.json''], File ''{devDependencies:{esm:^3.0.0}}''),
      ([''app'', ''.esmrc.json''], File ''{}'')]"

definition example_rc_script_files :: fs where
  "example_rc_script_files =
     [([''app'', ''package.json''], File ''{devDependencies:{esm:^3.0.0}}''),
      ([''app'', ''.esmrc.js''], File ''module.exports = {}'')]"


definition example_default_record :: obj where
  "example_default_record =
     [(''cjs'', JObj [(''cache'', JBool True), (''extensions'', JBool True),
                     (''interop'', JBool True), (''mutableNamespace'', JBool True),
                     (''namedExports'', JBool True), (''paths'', JBool True),
                     (''topLevelReturn'', JBool False), (''vars'', JBool True)]),
      (''mode'', JNum 2), (''await'', JBool False), (''cache'', JBool True),
      (''debug'', JBool False), (''mainFields'', JArr [JStr ''main'']),
      (''sourceMap'', JUndefined), (''warnings'', JBool False)]"

definition example_resolved_state :: state where
  "example_resolved_state =
     \<lparr>memo = [[''app''] \<mapsto> Some 0], default_pkg = None,
      heap = [\<lparr>pkg_cachePath = Some [''app'', ''node_modules'', ''.cache'', ''esm''],
               pkg_dirPath = [''app''], pkg_options = example_default_record,
               pkg_range = JStr ''*''\<rparr>],
      dir_reg = [Some [''app'', ''node_modules'', ''.cache'', ''esm''] \<mapsto>
                   \<lparr>buffer = Some [], compile_index = Some [], cmap = JObj []\<rparr>],
      root_reg = Map.empty, files = example_dev_files,
      parseOnly = False, parsing = False\<rparr>"

section \<open>Properties of the option records\<close>

text \<open>
  C8. The \<open>cjs\<close> option given as the boolean \<open>true\<close> yields the group record in
  which each of the eight toggles (\<open>cache\<close>, \<open>extensions\<close>, \<open>interop\<close>,
  \<open>mutableNamespace\<close>, \<open>namedExports\<close>, \<open>paths\<close>, \<open>topLevelReturn\<close>, \<open>vars\<close>) is
  \<open>true\<close>, and given as \<open>false\<close> the record in which each is \<open>false\<close>: both for
  \<open>createCJS\<close> itself and for the \<open>cjs\<close> member of what \<open>createOptions\<close> returns for
  an options record with that \<open>cjs\<close> value.
\<close>

theorem createCJS_boolean_broadcast:
  "createCJS w (JBool b) =
     Inr [(''cache'', JBool b), (''extensions'', JBool b), (''interop'', JBool b),
          (''mutableNamespace'', JBool b), (''namedExports'', JBool b),
          (''paths'', JBool b), (''topLevelReturn'', JBool b), (''vars'', JBool b)]
   \<and> (\<exists>r. createOptions w (JObj [(''cjs'', JBool b)]) = Inr r
          \<and> obj_get r ''cjs'' =
              JObj [(''cache'', JBool b), (''extensions'', JBool b), (''interop'', JBool b),
                    (''mutableNamespace'', JBool b), (''namedExports'', JBool b),
                    (''paths'', JBool b), (''topLevelReturn'', JBool b), (''vars'', JBool b)])"
proof
  show cjs: "createCJS w (JBool b) =
     Inr [(''cache'', JBool b), (''extensions'', JBool b), (''interop'', JBool b),
          (''mutableNamespace'', JBool b), (''namedExports'', JBool b),
          (''paths'', JBool b), (''topLevelReturn'', JBool b), (''vars'', JBool b)]"
    by (simp add: createCJS_def defaultCJS_def)
  show "\<exists>r. createOptions w (JObj [(''cjs'', JBool b)]) = Inr r
          \<and> obj_get r ''cjs'' =
              JObj [(''cache'', JBool b), (''extensions'', JBool b), (''interop'', JBool b),
                    (''mutableNamespace'', JBool b), (''namedExports'', JBool b),
                    (''paths'', JBool b), (''topLevelReturn'', JBool b), (''vars'', JBool b)]"
    by (simp add: createOptions_def cjs Reflect_has_def defaultOptions_def
        object_prototype_names_def assign_member_def obj_get_def autoOptions_mode_def
        normalize_mainFields_def normalize_mode_def coerce_flags_def)
qed

text \<open>The definitions that evaluate \<open>createOptions\<close> on a concrete value.\<close>

lemmas eval_options =
  createOptions_def Reflect_has_def defaultOptions_def object_prototype_names_def
  assign_member_def obj_get_def autoOptions_mode_def autoOptions_cjs_def createCJS_def
  defaultCJS_def normalize_mainFields_def normalize_mode_def coerce_flags_def example_env_def
  Let_def

subsection \<open>Objects as association lists\<close>

lemma map_of_obj_set: "map_of (obj_set kvs k v) = (map_of kvs)(k \<mapsto> v)"
  by (induction kvs) (auto simp: fun_eq_iff)

lemma obj_get_obj_set: "obj_get (obj_set kvs k v) k' = (if k' = k then v else obj_get kvs k')"
  by (simp add: obj_get_def map_of_obj_set)

lemma keys_obj_set:
  "map fst (obj_set kvs k v) = (if k \<in> fst ` set kvs then map fst kvs else map fst kvs @ [k])"
  by (induction kvs) force+

lemma obj_set_triv: "map_of kvs k = Some v \<Longrightarrow> obj_set kvs k v = kvs"
  by (induction kvs) (auto split: if_splits)

lemma obj_set_new: "k \<notin> fst ` set kvs \<Longrightarrow> obj_set kvs k v = kvs @ [(k, v)]"
  by (induction kvs) auto

lemma obj_get_assign_member:
  "obj_get (assign_member kvs k v) k' =
     (if k' = k \<and> k \<noteq> ''__proto__'' then v else obj_get kvs k')"
  by (simp add: assign_member_def obj_get_obj_set)

lemma keys_assign_member:
  "map fst (assign_member kvs k v) =
     (if k \<in> fst ` set kvs \<or> k = ''__proto__'' then map fst kvs else map fst kvs @ [k])"
  by (simp add: assign_member_def keys_obj_set)

lemma dom_assign_member:
  "fst ` set (assign_member kvs k v) =
     (if k = ''__proto__'' then fst ` set kvs else insert k (fst ` set kvs))"
proof -
  have "fst ` set (assign_member kvs k v) = set (map fst (assign_member kvs k v))" by simp
  also have "\<dots> = (if k = ''__proto__'' then fst ` set kvs else insert k (fst ` set kvs))"
    unfolding keys_assign_member by auto
  finally show ?thesis .
qed

lemma distinct_assign_member:
  "distinct (map fst kvs) \<Longrightarrow> distinct (map fst (assign_member kvs k v))"
  unfolding keys_assign_member by auto

lemma obj_get_absent: "k \<notin> fst ` set kvs \<Longrightarrow> obj_get kvs k = JUndefined"
  by (simp add: obj_get_def map_of_eq_None_iff[THEN iffD2])

lemma dom_defaults:
  "fst ` set (defaults target source) = fst ` set target \<union> (fst ` set source - {''__proto__''})"
proof (induction source arbitrary: target)
  case Nil
  then show ?case by simp
next
  case (Cons a source)
  obtain k' v' where a: "a = (k', v')" by (cases a)
  show ?case
  proof (cases "obj_get target k' = JUndefined \<or> k' \<notin> fst ` set target")
    case True
    then have "defaults target (a # source) = defaults (assign_member target k' v') source"
      by (simp add: a)
    then show ?thesis
      by (auto simp: Cons.IH dom_assign_member a)
  next
    case False
    then have "defaults target (a # source) = defaults target source" and "k' \<in> fst ` set target"
      by (simp_all add: a)
    then show ?thesis
      by (auto simp: Cons.IH a)
  qed
qed

lemma distinct_defaults:
  "distinct (map fst target) \<Longrightarrow> distinct (map fst (defaults target source))"
  by (induction source arbitrary: target) (auto simp: distinct_assign_member)

lemma obj_get_defaults:
  "distinct (map fst source) \<Longrightarrow> ''__proto__'' \<notin> fst ` set source \<Longrightarrow>
   obj_get (defaults target source) k =
     (if obj_get target k = JUndefined then obj_get source k else obj_get target k)"
proof (induction source arbitrary: target)
  case Nil
  then show ?case by (simp add: obj_get_def)
next
  case (Cons a source)
  obtain k' v' where a: "a = (k', v')" by (cases a)
  have notin: "k' \<notin> fst ` set source" and np: "k' \<noteq> ''__proto__''"
    and d: "distinct (map fst source)" and p: "''__proto__'' \<notin> fst ` set source"
    using Cons.prems a by auto
  have src_k': "obj_get ((k', v') # source) k = (if k = k' then v' else obj_get source k)"
    by (simp add: obj_get_def)
  have src_abs: "obj_get source k' = JUndefined" using notin by (rule obj_get_absent)
  note IH = Cons.IH[OF d p]
  show ?case
  proof (cases "obj_get target k' = JUndefined \<or> k' \<notin> fst ` set target")
    case True
    then have und: "obj_get target k' = JUndefined" using obj_get_absent by blast
    have eq: "defaults target (a # source) = defaults (assign_member target k' v') source"
      using True by (simp add: a)
    have "obj_get (defaults (assign_member target k' v') source) k =
          (if obj_get (assign_member target k' v') k = JUndefined then obj_get source k
           else obj_get (assign_member target k' v') k)"
      by (rule IH)
    then show ?thesis
      unfolding eq a src_k' obj_get_assign_member
      using und np src_abs by auto
  next
    case False
    then have eq: "defaults target (a # source) = defaults target source"
      by (simp add: a)
    have "obj_get (defaults target source) k =
          (if obj_get target k = JUndefined then obj_get source k else obj_get target k)"
      by (rule IH)
    then show ?thesis
      unfolding eq a src_k'
      using False src_abs by auto
  qed
qed

lemma is_bool_iff: "is_bool v \<longleftrightarrow> (\<exists>b. v = JBool b)"
  by (cases v) (auto simp: is_bool_def)

lemma obj_get_present: "distinct (map fst kvs) \<Longrightarrow> (k, v) \<in> set kvs \<Longrightarrow> obj_get kvs k = v"
  by (simp add: obj_get_def)

lemma obj_get_append_hit:
  "k \<notin> fst ` set pre \<Longrightarrow> obj_get (pre @ (k, v) # rest) k = v"
  by (simp add: obj_get_def map_add_def map_of_eq_None_iff[THEN iffD2])

lemma assign_member_new:
  "k \<notin> fst ` set kvs \<Longrightarrow> k \<noteq> ''__proto__'' \<Longrightarrow> assign_member kvs k v = kvs @ [(k, v)]"
  by (simp add: assign_member_def obj_set_new)

lemma assign_member_triv:
  "k \<in> fst ` set kvs \<Longrightarrow> obj_get kvs k = v \<Longrightarrow> assign_member kvs k v = kvs"
proof -
  assume "k \<in> fst ` set kvs" "obj_get kvs k = v"
  then have "map_of kvs k = Some v"
    by (auto simp: obj_get_def map_of_eq_None_iff split: option.splits)
  then show ?thesis by (simp add: assign_member_def obj_set_triv)
qed

lemma createCJS_names_rebuild:
  "distinct (map fst (pre @ rest)) \<Longrightarrow> ''__proto__'' \<notin> fst ` set rest \<Longrightarrow>
   list_all (\<lambda>k. Reflect_has defaultCJS k) (map fst rest) \<Longrightarrow>
   list_all is_bool (map snd rest) \<Longrightarrow>
   createCJS_names w (JObj (pre @ rest)) (map fst rest) pre = Inr (pre @ rest)"
proof (induction rest arbitrary: pre)
  case Nil
  then show ?case by simp
next
  case (Cons a rest)
  obtain k v where a: "a = (k, v)" by (cases a)
  from Cons.prems a obtain b where v: "v = JBool b" by (auto simp: is_bool_iff)
  have k_pre: "k \<notin> fst ` set pre" and k_proto: "k \<noteq> ''__proto__''"
    and known: "Reflect_has defaultCJS k"
    using Cons.prems a by auto
  have get: "js_prop (JObj (pre @ a # rest)) k = JBool b"
    using k_pre by (simp add: a v obj_get_append_hit)
  have step: "assign_member pre k (JBool (truthy (JBool b))) = pre @ [a]"
    using k_pre k_proto by (simp add: assign_member_new a v)
  have "createCJS_names w (JObj ((pre @ [a]) @ rest)) (map fst rest) (pre @ [a]) = Inr ((pre @ [a]) @ rest)"
    using Cons.prems by (intro Cons.IH) (auto simp: a)
  then show ?case
    using known get step by (simp add: a)
qed

lemma defaults_id:
  "list_all (\<lambda>(k, v). k \<in> fst ` set target \<and> (obj_get target k \<noteq> JUndefined \<or> v = JUndefined)) source
   \<Longrightarrow> defaults target source = target"
proof (induction source)
  case Nil
  then show ?case by simp
next
  case (Cons a source)
  obtain k v where a: "a = (k, v)" by (cases a)
  have rest: "defaults target source = target" using Cons by simp
  have kin: "k \<in> fst ` set target" and alt: "obj_get target k \<noteq> JUndefined \<or> v = JUndefined"
    using Cons.prems a by auto
  show ?case
  proof (cases "obj_get target k = JUndefined")
    case True
    then have "assign_member target k v = target"
      using kin alt by (simp add: assign_member_triv)
    then show ?thesis using True rest by (simp add: a)
  next
    case False
    then show ?thesis using kin rest by (simp add: a)
  qed
qed

lemma cjs_record_gets:
  assumes "cjs_record c" "k \<in> fst ` set c"
  shows "\<exists>b. obj_get c k = JBool b"
proof -
  from assms obtain v where kv: "(k, v) \<in> set c" by auto
  then have "obj_get c k = v" using assms(1) by (simp add: cjs_record_def obj_get_present)
  moreover have "is_bool v" using assms(1) kv by (force simp: cjs_record_def list_all_iff)
  ultimately show ?thesis by (simp add: is_bool_iff)
qed

lemma createCJS_cjs_record: "cjs_record c \<Longrightarrow> createCJS w (JObj c) = Inr c"
proof -
  assume c: "cjs_record c"
  have "createCJS_names w (JObj ([] @ c)) (map fst c) [] = Inr ([] @ c)"
    using c by (intro createCJS_names_rebuild) (auto simp: cjs_record_def)
  then have loop: "createCJS_names w (JObj c) (map fst c) [] = Inr c" by simp
  have "list_all (\<lambda>(k, v). k \<in> fst ` set c \<and> (obj_get c k \<noteq> JUndefined \<or> v = JUndefined)) defaultCJS"
    unfolding list_all_iff
  proof (intro ballI)
    fix x assume x: "x \<in> set defaultCJS"
    obtain k v where kv: "x = (k, v)" by (cases x)
    have kin: "k \<in> fst ` set c" using c x kv by (force simp: cjs_record_def list_all_iff)
    with cjs_record_gets[OF c kin] show "case x of (k, v) \<Rightarrow> k \<in> fst ` set c \<and> (obj_get c k \<noteq> JUndefined \<or> v = JUndefined)"
      by (auto simp: kv)
  qed
  then have "defaults c defaultCJS = c" by (rule defaults_id)
  then show ?thesis using loop by (simp add: createCJS_def)
qed

lemma known_obj_Nil: "known_obj table []"
  by (simp add: known_obj_def)

lemma known_obj_assign:
  "known_obj table options \<Longrightarrow> Reflect_has table k \<Longrightarrow> known_obj table (assign_member options k v)"
  by (auto simp: known_obj_def keys_assign_member dom_assign_member)

lemma known_obj_defaults:
  "known_obj table options \<Longrightarrow> known_obj table (defaults options table)"
proof -
  have gen: "known_obj table options \<Longrightarrow> list_all (\<lambda>k. Reflect_has table k) (map fst source)
         \<Longrightarrow> known_obj table (defaults options source)" for source
  proof (induction source arbitrary: options)
    case Nil
    then show ?case by simp
  next
    case (Cons a source)
    obtain k v where a: "a = (k, v)" by (cases a)
    show ?case using Cons.prems
      by (auto simp: a intro!: Cons.IH known_obj_assign)
  qed
  assume "known_obj table options"
  then show ?thesis
    by (rule gen) (auto simp: list_all_iff Reflect_has_def)
qed

lemma all_snd_obj_set:
  "list_all P (map snd kvs) \<Longrightarrow> P v \<Longrightarrow> list_all P (map snd (obj_set kvs k v))"
  by (induction kvs) auto

lemma all_snd_assign_member:
  "list_all P (map snd kvs) \<Longrightarrow> P v \<Longrightarrow> list_all P (map snd (assign_member kvs k v))"
  by (simp add: assign_member_def all_snd_obj_set)

lemma all_snd_defaults:
  "list_all P (map snd target) \<Longrightarrow> list_all P (map snd source) \<Longrightarrow>
   list_all P (map snd (defaults target source))"
  by (induction source arbitrary: target) (auto simp: all_snd_assign_member)

lemma createCJS_names_inv:
  "createCJS_names w val ns options = Inr options' \<Longrightarrow>
   known_obj defaultCJS options \<Longrightarrow> list_all is_bool (map snd options) \<Longrightarrow>
   known_obj defaultCJS options' \<and> list_all is_bool (map snd options')"
proof (induction ns arbitrary: options)
  case Nil
  then show ?case by simp
next
  case (Cons name ns)
  show ?case
  proof (cases "Reflect_has defaultCJS name")
    case True
    with Cons.prems have step:
      "createCJS_names w val ns (assign_member options name (JBool (truthy (js_prop val name)))) = Inr options'"
      by simp
    have k: "known_obj defaultCJS (assign_member options name (JBool (truthy (js_prop val name))))"
      using Cons.prems(2) True by (rule known_obj_assign)
    have b: "list_all is_bool (map snd (assign_member options name (JBool (truthy (js_prop val name)))))"
      using Cons.prems(3) by (rule all_snd_assign_member) (simp add: is_bool_def)
    show ?thesis using step k b by (rule Cons.IH)
  next
    case False
    with Cons.prems show ?thesis by simp
  qed
qed

lemma cjs_record_defaultCJS: "cjs_record defaultCJS"
  by (simp add: cjs_record_def defaultCJS_def Reflect_has_def is_bool_def)

lemma createCJS_result: "createCJS w val = Inr c \<Longrightarrow> cjs_record c"
proof -
  assume res: "createCJS w val = Inr c"
  consider (undef) "val = JUndefined"
    | (object) "val \<noteq> JUndefined" "isObjectLike val"
    | (other) "val \<noteq> JUndefined" "\<not> isObjectLike val"
    by blast
  then show ?thesis
  proof cases
    case undef
    with res have "c = defaultCJS"
      by (simp add: createCJS_def defaultCJS_def assign_member_def)
    then show ?thesis by (simp add: cjs_record_defaultCJS)
  next
    case object
    with res obtain options where loop: "createCJS_names w val (keys val) [] = Inr options"
      and c: "c = defaults options defaultCJS"
      by (auto simp: createCJS_def split: sum.splits)
    from createCJS_names_inv[OF loop] have k: "known_obj defaultCJS options"
      and b: "list_all is_bool (map snd options)"
      by (simp_all add: known_obj_Nil)
    have k': "known_obj defaultCJS c" unfolding c using k by (rule known_obj_defaults)
    have b': "list_all is_bool (map snd c)" unfolding c using b
      by (rule all_snd_defaults) (simp add: defaultCJS_def is_bool_def)
    have "list_all (\<lambda>k. k \<in> fst ` set c) (map fst defaultCJS)"
      unfolding c dom_defaults by (simp add: list_all_iff defaultCJS_def)
    then show ?thesis using k' b' by (simp add: cjs_record_def known_obj_def)
  next
    case other
    with res have "c = map (\<lambda>name. (name, JBool (truthy val))) (map fst defaultCJS)"
      by (simp add: createCJS_def)
    then show ?thesis
      by (simp add: cjs_record_def defaultCJS_def Reflect_has_def is_bool_def)
  qed
qed

lemma createOptions_names_inv:
  "createOptions_names w val pn ns (names, options) = Inr (names', options') \<Longrightarrow>
   known_obj (defaultOptions w) options \<Longrightarrow> known_obj (defaultOptions w) options'"
proof (induction ns arbitrary: names options)
  case Nil
  then show ?case by simp
next
  case (Cons name ns)
  have sm: "Reflect_has (defaultOptions w) ''sourceMap''"
    by (simp add: Reflect_has_def defaultOptions_def)
  show ?case
    using Cons.prems
    by (auto simp: Let_def split: if_splits intro: Cons.IH known_obj_assign sm)
qed

lemma in_dom_defaultOptions:
  "k \<in> fst ` set (defaultOptions w) \<longleftrightarrow>
     k \<in> {''await'', ''cache'', ''cjs'', ''debug'', ''mainFields'', ''mode'', ''sourceMap'', ''warnings''}"
  by (auto simp: defaultOptions_def)

lemma Reflect_has_defaultOptions:
  "k \<in> {''await'', ''cache'', ''cjs'', ''debug'', ''mainFields'', ''mode'', ''sourceMap'', ''warnings''}
   \<Longrightarrow> Reflect_has (defaultOptions w) k"
  unfolding Reflect_has_def using in_dom_defaultOptions[of k w] by simp

lemma normalize_mainFields_result:
  "normalize_mainFields options = Inr options' \<Longrightarrow>
   \<exists>xs. options' = assign_member options ''mainFields'' (JArr xs)"
  by (auto simp: normalize_mainFields_def Let_def split: jsval.splits)

lemma normalize_mode_result:
  "normalize_mode w options = Inr options' \<Longrightarrow>
   \<exists>c \<in> {OPTIONS_MODE_ALL w, OPTIONS_MODE_AUTO w, OPTIONS_MODE_STRICT w}.
      options' = assign_member options ''mode'' c"
  by (auto simp: normalize_mode_def Let_def split: if_splits)

lemma coerce_flags_get:
  "obj_get (coerce_flags options) k =
     (if k = ''warnings'' then JBool (truthy (obj_get options ''warnings''))
      else if k = ''debug'' then JBool (truthy (obj_get options ''debug''))
      else if k = ''cache'' then (case obj_get options ''cache'' of JStr s \<Rightarrow> JStr s
                                  | c \<Rightarrow> JBool (truthy c))
      else obj_get options k)"
  by (cases "obj_get options ''cache''")
     (auto simp: coerce_flags_def Let_def obj_get_assign_member)

lemma known_obj_coerce_flags:
  "known_obj (defaultOptions w) options \<Longrightarrow> known_obj (defaultOptions w) (coerce_flags options)"
  by (cases "obj_get options ''cache''")
     (auto simp: coerce_flags_def Let_def intro!: known_obj_assign Reflect_has_defaultOptions)

lemma dom_coerce_flags:
  "fst ` set (coerce_flags options) = {''cache'', ''debug'', ''warnings''} \<union> fst ` set options
   \<or> fst ` set (coerce_flags options) = {''debug'', ''warnings''} \<union> fst ` set options"
  by (cases "obj_get options ''cache''")
     (auto simp: coerce_flags_def Let_def dom_assign_member)

lemma dom_coerce_flags_sup: "fst ` set options \<subseteq> fst ` set (coerce_flags options)"
  using dom_coerce_flags[of options] by auto

lemma createOptions_result:
  assumes "createOptions w val = Inr r"
  shows "options_record w r"
    and "obj_get r ''mode'' \<in> {OPTIONS_MODE_ALL w, OPTIONS_MODE_AUTO w, OPTIONS_MODE_STRICT w}"
    and "\<exists>names options0.
           (case val of
              JStr s \<Rightarrow> Inr ([''mode''], [(''mode'', val)])
            | _ \<Rightarrow> createOptions_names w val (keys val) (keys val) ([], [])) = Inr (names, options0)
         \<and> fst ` set r = fst ` set options0 \<union> fst ` set (defaultOptions w)
         \<and> (\<forall>k. k \<notin> {''warnings'', ''debug'', ''cache'', ''mode'', ''mainFields'', ''cjs''} \<longrightarrow>
                obj_get r k = (if obj_get options0 k = JUndefined
                               then obj_get (defaultOptions w) k else obj_get options0 k))"
proof -
  define start where "start = (case val of
              JStr s \<Rightarrow> Inr ([''mode''], [(''mode'', val)])
            | _ \<Rightarrow> createOptions_names w val (keys val) (keys val) ([], []))"
  from assms obtain names options0 where start: "start = Inr (names, options0)"
    unfolding createOptions_def start_def by (auto split: sum.splits)
  define options1 where "options1 = (if ''cjs'' \<notin> set names
                           then assign_member options0 ''cjs'' (JObj autoOptions_cjs)
                           else options0)"
  define options2 where "options2 = (if ''mode'' \<notin> set names
                           then assign_member options1 ''mode'' autoOptions_mode
                           else options1)"
  have eq1: "createOptions w val =
      (case createCJS w (obj_get options2 ''cjs'') of
         Inl e \<Rightarrow> Inl e
       | Inr cjsOptions \<Rightarrow>
           (case normalize_mainFields
                   (assign_member (defaults options2 (defaultOptions w)) ''cjs'' (JObj cjsOptions)) of
              Inl e \<Rightarrow> Inl e
            | Inr options5 \<Rightarrow>
                (case normalize_mode w options5 of
                   Inl e \<Rightarrow> Inl e
                 | Inr options6 \<Rightarrow> Inr (coerce_flags options6))))"
    using start unfolding createOptions_def start_def[symmetric] options1_def options2_def Let_def
    by simp
  from assms obtain cjsOptions where cjs: "createCJS w (obj_get options2 ''cjs'') = Inr cjsOptions"
    unfolding eq1 by (cases "createCJS w (obj_get options2 ''cjs'')") auto
  define options3 where "options3 = defaults options2 (defaultOptions w)"
  define options4 where "options4 = assign_member options3 ''cjs'' (JObj cjsOptions)"
  have eq2: "createOptions w val =
      (case normalize_mainFields options4 of
              Inl e \<Rightarrow> Inl e
            | Inr options5 \<Rightarrow>
                (case normalize_mode w options5 of
                   Inl e \<Rightarrow> Inl e
                 | Inr options6 \<Rightarrow> Inr (coerce_flags options6)))"
    unfolding eq1 cjs options4_def options3_def by simp
  from assms obtain options5 where mf: "normalize_mainFields options4 = Inr options5"
    unfolding eq2 by (cases "normalize_mainFields options4") auto
  from assms obtain options6 where md: "normalize_mode w options5 = Inr options6"
    unfolding eq2 by (cases "normalize_mode w options5") (auto simp: mf)
  have r: "r = coerce_flags options6"
    using assms unfolding eq2 by (simp add: mf md)
  from mf obtain xs where o5: "options5 = assign_member options4 ''mainFields'' (JArr xs)"
    using normalize_mainFields_result by blast
  from md obtain c where c: "c \<in> {OPTIONS_MODE_ALL w, OPTIONS_MODE_AUTO w, OPTIONS_MODE_STRICT w}"
    and o6: "options6 = assign_member options5 ''mode'' c"
    using normalize_mode_result by blast
  have k0: "known_obj (defaultOptions w) options0"
  proof (cases "\<exists>s. val = JStr s")
    case True
    then show ?thesis using start
      by (auto simp: start_def known_obj_def Reflect_has_def defaultOptions_def)
  next
    case False
    then have "createOptions_names w val (keys val) (keys val) ([], []) = Inr (names, options0)"
      using start by (cases val) (auto simp: start_def)
    then show ?thesis by (rule createOptions_names_inv) (rule known_obj_Nil)
  qed
  have k2: "known_obj (defaultOptions w) options2"
    unfolding options2_def options1_def using k0
    by (auto intro!: known_obj_assign Reflect_has_defaultOptions)
  have k3: "known_obj (defaultOptions w) options3"
    unfolding options3_def using k2 by (rule known_obj_defaults)
  have k6: "known_obj (defaultOptions w) options6"
    unfolding o6 o5 options4_def using k3
    by (auto intro!: known_obj_assign Reflect_has_defaultOptions)
  have kr: "known_obj (defaultOptions w) r"
    unfolding r using k6 by (rule known_obj_coerce_flags)
  have dom3: "fst ` set (defaultOptions w) \<subseteq> fst ` set options3"
    unfolding options3_def dom_defaults by (auto simp: defaultOptions_def)
  have dom6: "fst ` set (defaultOptions w) \<subseteq> fst ` set options6"
    unfolding o6 o5 options4_def using dom3 by (auto simp: dom_assign_member)
  have domr: "fst ` set (defaultOptions w) \<subseteq> fst ` set r"
    unfolding r using dom6 dom_coerce_flags_sup by blast
  have get3: "obj_get options3 k =
     (if obj_get options2 k = JUndefined then obj_get (defaultOptions w) k else obj_get options2 k)" for k
    unfolding options3_def by (rule obj_get_defaults) (auto simp: defaultOptions_def)
  have await3: "obj_get options3 ''await'' \<noteq> JUndefined"
    unfolding get3 by (simp add: defaultOptions_def obj_get_def)
  have cache3: "obj_get options3 ''cache'' \<noteq> JUndefined"
    unfolding get3 by (simp add: defaultOptions_def obj_get_def)
  have getr: "obj_get r k =
      (if k = ''warnings'' then JBool (truthy (obj_get options3 ''warnings''))
      else if k = ''debug'' then JBool (truthy (obj_get options3 ''debug''))
      else if k = ''cache'' then (case obj_get options3 ''cache'' of JStr s \<Rightarrow> JStr s
                                  | c \<Rightarrow> JBool (truthy c))
      else if k = ''mode'' then c
      else if k = ''mainFields'' then JArr xs
      else if k = ''cjs'' then JObj cjsOptions
      else obj_get options3 k)" for k
    unfolding r coerce_flags_get o6 o5 options4_def obj_get_assign_member by simp
  have cr: "cjs_record cjsOptions" using cjs by (rule createCJS_result)
  have cache_r: "(case obj_get r ''cache'' of JStr s \<Rightarrow> True | JBool b \<Rightarrow> True | _ \<Rightarrow> False)"
    unfolding getr by (cases "obj_get options3 ''cache''") simp_all
  show "options_record w r"
    unfolding options_record_def
    using kr domr cr cache_r await3
    by (simp add: getr is_bool_def list_all_iff subset_iff)
  show "obj_get r ''mode'' \<in> {OPTIONS_MODE_ALL w, OPTIONS_MODE_AUTO w, OPTIONS_MODE_STRICT w}"
    using c by (simp add: getr)
  define D where "D = fst ` set (defaultOptions w)"
  have inD: "''cjs'' \<in> D" "''mode'' \<in> D" "''mainFields'' \<in> D" "''cache'' \<in> D"
    "''debug'' \<in> D" "''warnings'' \<in> D" and npD: "''__proto__'' \<notin> D"
    by (simp_all add: D_def defaultOptions_def)
  have dom2a: "fst ` set options0 \<subseteq> fst ` set options2"
    and dom2b: "fst ` set options2 \<subseteq> fst ` set options0 \<union> {''cjs'', ''mode''}"
    unfolding options2_def options1_def by (auto simp: dom_assign_member)
  have "fst ` set options3 = fst ` set options2 \<union> D"
    unfolding options3_def dom_defaults D_def[symmetric] using npD by blast
  then have dom3': "fst ` set options3 = fst ` set options0 \<union> D"
    using dom2a dom2b inD by (auto simp: subset_iff)
  have "fst ` set options6 = insert ''mode'' (insert ''mainFields'' (insert ''cjs'' (fst ` set options3)))"
    unfolding o6 o5 options4_def by (simp add: dom_assign_member)
  then have dom6': "fst ` set options6 = fst ` set options3"
    using dom3' inD by (simp add: insert_absorb)
  have "fst ` set r = fst ` set options6"
    using dom_coerce_flags[of options6] dom6' dom3' inD unfolding r by (auto simp: insert_absorb)
  then have domr': "fst ` set r = fst ` set options0 \<union> fst ` set (defaultOptions w)"
    by (simp add: dom6' dom3' D_def)
  have get2: "k \<notin> {''mode'', ''cjs''} \<Longrightarrow> obj_get options2 k = obj_get options0 k" for k
    unfolding options2_def options1_def by (auto simp: obj_get_assign_member)
  have frame: "\<forall>k. k \<notin> {''warnings'', ''debug'', ''cache'', ''mode'', ''mainFields'', ''cjs''} \<longrightarrow>
                obj_get r k = (if obj_get options0 k = JUndefined
                               then obj_get (defaultOptions w) k else obj_get options0 k)"
  proof (intro allI impI)
    fix k :: string
    assume k: "k \<notin> {''warnings'', ''debug'', ''cache'', ''mode'', ''mainFields'', ''cjs''}"
    then have "obj_get r k = obj_get options3 k"
      unfolding getr by simp
    also have "\<dots> = (if obj_get options2 k = JUndefined then obj_get (defaultOptions w) k
                      else obj_get options2 k)"
      by (rule get3)
    also have "obj_get options2 k = obj_get options0 k"
      using k by (intro get2) simp
    finally show "obj_get r k = (if obj_get options0 k = JUndefined
                               then obj_get (defaultOptions w) k else obj_get options0 k)" .
  qed
  show "\<exists>names options0.
           (case val of
              JStr s \<Rightarrow> Inr ([''mode''], [(''mode'', val)])
            | _ \<Rightarrow> createOptions_names w val (keys val) (keys val) ([], [])) = Inr (names, options0)
         \<and> fst ` set r = fst ` set options0 \<union> fst ` set (defaultOptions w)
         \<and> (\<forall>k. k \<notin> {''warnings'', ''debug'', ''cache'', ''mode'', ''mainFields'', ''cjs''} \<longrightarrow>
                obj_get r k = (if obj_get options0 k = JUndefined
                               then obj_get (defaultOptions w) k else obj_get options0 k))"
    using start domr' frame unfolding start_def by blast
qed

subsection \<open>Applying \<open>createOptions\<close> to its own result\<close>

lemma createOptions_names_rebuild:
  "distinct (map fst (pre @ rest)) \<Longrightarrow> ''__proto__'' \<notin> fst ` set rest \<Longrightarrow>
   list_all (\<lambda>k. Reflect_has (defaultOptions w) k) (map fst rest) \<Longrightarrow>
   createOptions_names w (JObj (pre @ rest)) pn (map fst rest) (names, pre) =
     Inr (names @ map fst rest, pre @ rest)"
proof (induction rest arbitrary: pre names)
  case Nil
  then show ?case by simp
next
  case (Cons a rest)
  obtain k v where a: "a = (k, v)" by (cases a)
  have k_pre: "k \<notin> fst ` set pre" and k_proto: "k \<noteq> ''__proto__''"
    and known: "Reflect_has (defaultOptions w) k"
    using Cons.prems a by auto
  have get: "js_prop (JObj (pre @ a # rest)) k = v"
    using k_pre by (simp add: a obj_get_append_hit)
  have step: "assign_member pre k v = pre @ [a]"
    using k_pre k_proto by (simp add: assign_member_new a)
  have "createOptions_names w (JObj ((pre @ [a]) @ rest)) pn (map fst rest) (names @ [k], pre @ [a]) =
          Inr ((names @ [k]) @ map fst rest, (pre @ [a]) @ rest)"
    using Cons.prems by (intro Cons.IH) (auto simp: a)
  then show ?case
    using known get step by (simp add: a)
qed

lemma coerce_flags_id:
  assumes "''cache'' \<in> fst ` set options" "''debug'' \<in> fst ` set options"
    "''warnings'' \<in> fst ` set options"
    "case obj_get options ''cache'' of JStr s \<Rightarrow> True | JBool b \<Rightarrow> True | _ \<Rightarrow> False"
    "is_bool (obj_get options ''debug'')" "is_bool (obj_get options ''warnings'')"
  shows "coerce_flags options = options"
proof -
  from assms(5,6) obtain d x where d: "obj_get options ''debug'' = JBool d"
    and x: "obj_get options ''warnings'' = JBool x"
    by (auto simp: is_bool_iff)
  have c: "(case obj_get options ''cache'' of
                        JStr s \<Rightarrow> options
                      | c \<Rightarrow> assign_member options ''cache'' (JBool (truthy c))) = options"
    using assms(1,4) by (cases "obj_get options ''cache''") (auto simp: assign_member_triv)
  show ?thesis
    unfolding coerce_flags_def Let_def c
    using assms(2,3) d x by (simp add: assign_member_triv)
qed

lemma options_record_dom:
  "options_record w r \<Longrightarrow>
   k \<in> {''await'', ''cache'', ''cjs'', ''debug'', ''mainFields'', ''mode'', ''sourceMap'', ''warnings''}
   \<Longrightarrow> k \<in> fst ` set r"
  unfolding options_record_def list_all_iff using in_dom_defaultOptions[of k w] by auto

lemma createOptions_again:
  assumes rec: "options_record w r" and mode: "obj_get r ''mode'' \<noteq> JUndefined"
  shows "createOptions w (JObj r) = normalize_mode w r"
proof -
  have known: "known_obj (defaultOptions w) r" using rec by (simp add: options_record_def)
  have "createOptions_names w (JObj ([] @ r)) (map fst r) (map fst r) ([], []) =
          Inr ([] @ map fst r, [] @ r)"
    using known by (intro createOptions_names_rebuild) (auto simp: known_obj_def)
  then have loop: "createOptions_names w (JObj r) (map fst r) (map fst r) ([], []) = Inr (map fst r, r)"
    by simp
  have dom: "k \<in> {''await'', ''cache'', ''cjs'', ''debug'', ''mainFields'', ''mode'', ''sourceMap'', ''warnings''}
     \<Longrightarrow> k \<in> fst ` set r" for k
    using rec by (rule options_record_dom)
  obtain c where c: "obj_get r ''cjs'' = JObj c" and cr: "cjs_record c"
    using rec by (auto simp: options_record_def split: jsval.splits)
  obtain xs where mf: "obj_get r ''mainFields'' = JArr xs"
    using rec by (auto simp: options_record_def split: jsval.splits)
  have cache: "case obj_get r ''cache'' of JStr s \<Rightarrow> True | JBool b \<Rightarrow> True | _ \<Rightarrow> False"
    and debug: "is_bool (obj_get r ''debug'')" and warn: "is_bool (obj_get r ''warnings'')"
    and await: "obj_get r ''await'' \<noteq> JUndefined"
    using rec by (simp_all add: options_record_def)
  have cache_def: "obj_get r ''cache'' \<noteq> JUndefined"
    using cache by (cases "obj_get r ''cache''") auto
  have cjs: "createCJS w (JObj c) = Inr c" using cr by (rule createCJS_cjs_record)
  have doms: "''await'' \<in> fst ` set r" "''cache'' \<in> fst ` set r" "''cjs'' \<in> fst ` set r"
    "''debug'' \<in> fst ` set r" "''mainFields'' \<in> fst ` set r" "''mode'' \<in> fst ` set r"
    "''sourceMap'' \<in> fst ` set r" "''warnings'' \<in> fst ` set r"
    by (rule dom, simp)+
  have defined: "obj_get r ''debug'' \<noteq> JUndefined" "obj_get r ''warnings'' \<noteq> JUndefined"
    "obj_get r ''cjs'' \<noteq> JUndefined" "obj_get r ''mainFields'' \<noteq> JUndefined"
    using debug warn c mf by (auto simp: is_bool_iff)
  have "list_all (\<lambda>(k, v). k \<in> fst ` set r \<and> (obj_get r k \<noteq> JUndefined \<or> v = JUndefined))
          (defaultOptions w)"
    unfolding defaultOptions_def
    using doms defined cache_def await mode by simp
  then have d: "defaults r (defaultOptions w) = r" by (rule defaults_id)
  have a: "assign_member r ''cjs'' (JObj c) = r"
    using doms c by (simp add: assign_member_triv)
  have m: "normalize_mainFields r = Inr r"
    using doms mf by (simp add: normalize_mainFields_def assign_member_triv)
  have flags: "coerce_flags (assign_member r ''mode'' v) = assign_member r ''mode'' v" for v
    using doms cache debug warn
    by (intro coerce_flags_id) (simp_all add: dom_assign_member obj_get_assign_member)
  have tail: "(case normalize_mode w r of Inl e \<Rightarrow> Inl e | Inr options6 \<Rightarrow> Inr (coerce_flags options6))
      = normalize_mode w r"
    by (simp add: normalize_mode_def Let_def flags)
  have names: "''cjs'' \<in> set (map fst r)" "''mode'' \<in> set (map fst r)"
    using doms by simp_all
  show ?thesis
    unfolding createOptions_def Let_def
    using names by (simp add: loop c cjs d a m tail)
qed

text \<open>
  C2 (amended). Let \<open>createOptions\<close> return the record \<open>r\<close> for some options value.
  The \<open>mode\<close> of \<open>r\<close> is one of the constants \<open>OPTIONS_MODE_ALL\<close>,
  \<open>OPTIONS_MODE_AUTO\<close>, \<open>OPTIONS_MODE_STRICT\<close>. Applied to \<open>r\<close> again,
  \<open>createOptions\<close> returns \<open>r\<close> itself when these constants are the mode names
  \<open>"all"\<close>, \<open>"auto"\<close>, \<open>"strict"\<close>; when the mode of \<open>r\<close> is none of the three names
  (and not \<open>undefined\<close>), the second application raises
  \<open>ERR_INVALID_ESM_OPTION("mode", mode of r)\<close>. Every member but \<open>mode\<close> is a fixed
  point of the merge.
\<close>

theorem createOptions_twice:
  assumes "createOptions w val = Inr r"
  shows "(OPTIONS_MODE_ALL w = JStr ''all'' \<and> OPTIONS_MODE_AUTO w = JStr ''auto'' \<and>
          OPTIONS_MODE_STRICT w = JStr ''strict'' \<longrightarrow> createOptions w (JObj r) = Inr r)
       \<and> obj_get r ''mode'' \<in> {OPTIONS_MODE_ALL w, OPTIONS_MODE_AUTO w, OPTIONS_MODE_STRICT w}
       \<and> (obj_get r ''mode'' \<notin> {JStr ''all'', JStr ''auto'', JStr ''strict'', JUndefined} \<longrightarrow>
            createOptions w (JObj r) = Inl (ERR_INVALID_ESM_OPTION ''mode'' (obj_get r ''mode'')))"
proof -
  note rec = createOptions_result(1)[OF assms] and mode = createOptions_result(2)[OF assms]
  have dom: "''mode'' \<in> fst ` set r" using rec by (rule options_record_dom) simp
  have A: "createOptions w (JObj r) = Inr r"
    if "OPTIONS_MODE_ALL w = JStr ''all''" "OPTIONS_MODE_AUTO w = JStr ''auto''"
       "OPTIONS_MODE_STRICT w = JStr ''strict''"
  proof -
    from mode that have "obj_get r ''mode'' \<noteq> JUndefined" by auto
    with rec have "createOptions w (JObj r) = normalize_mode w r" by (rule createOptions_again)
    also have "\<dots> = Inr r"
    proof -
      have triv: "assign_member r ''mode'' (obj_get r ''mode'') = r"
        using dom by (simp add: assign_member_triv)
      from mode that consider "obj_get r ''mode'' = JStr ''all''"
        | "obj_get r ''mode'' = JStr ''auto''" | "obj_get r ''mode'' = JStr ''strict''"
        by auto
      then show ?thesis
        using triv that by cases (simp_all add: normalize_mode_def)
    qed
    finally show ?thesis .
  qed
  have B: "createOptions w (JObj r) = Inl (ERR_INVALID_ESM_OPTION ''mode'' (obj_get r ''mode''))"
    if "obj_get r ''mode'' \<notin> {JStr ''all'', JStr ''auto'', JStr ''strict'', JUndefined}"
  proof -
    from that have "obj_get r ''mode'' \<noteq> JUndefined" by simp
    with rec have "createOptions w (JObj r) = normalize_mode w r" by (rule createOptions_again)
    also have "\<dots> = Inl (ERR_INVALID_ESM_OPTION ''mode'' (obj_get r ''mode''))"
      using that by (simp add: normalize_mode_def)
    finally show ?thesis .
  qed
  from A B mode show ?thesis by blast
qed

text \<open>
  With the mode names as constants the second application returns the record; with the
  numbers 1, 2, 3 it raises.
\<close>

theorem createOptions_twice_witness:
  "createOptions (example_env\<lparr>OPTIONS_MODE_ALL := JStr ''all'', OPTIONS_MODE_AUTO := JStr ''auto'',
                              OPTIONS_MODE_STRICT := JStr ''strict''\<rparr>)
     (JObj [(''mode'', JStr ''strict''), (''cjs'', JBool True)]) =
     Inr [(''mode'', JStr ''strict''),
          (''cjs'', JObj [(''cache'', JBool True), (''extensions'', JBool True),
                         (''interop'', JBool True), (''mutableNamespace'', JBool True),
                         (''namedExports'', JBool True), (''paths'', JBool True),
                         (''topLevelReturn'', JBool True), (''vars'', JBool True)]),
          (''await'', JBool False), (''cache'', JBool True),
          (''debug'', JBool False), (''mainFields'', JArr [JStr ''main'']),
          (''sourceMap'', JUndefined), (''warnings'', JBool False)]
   \<and> createOptions (example_env\<lparr>OPTIONS_MODE_ALL := JStr ''all'', OPTIONS_MODE_AUTO := JStr ''auto'',
                              OPTIONS_MODE_STRICT := JStr ''strict''\<rparr>)
       (JObj [(''mode'', JStr ''strict''),
          (''cjs'', JObj [(''cache'', JBool True), (''extensions'', JBool True),
                         (''interop'', JBool True), (''mutableNamespace'', JBool True),
                         (''namedExports'', JBool True), (''paths'', JBool True),
                         (''topLevelReturn'', JBool True), (''vars'', JBool True)]),
          (''await'', JBool False), (''cache'', JBool True),
          (''debug'', JBool False), (''mainFields'', JArr [JStr ''main'']),
          (''sourceMap'', JUndefined), (''warnings'', JBool False)]) =
     Inr [(''mode'', JStr ''strict''),
          (''cjs'', JObj [(''cache'', JBool True), (''extensions'', JBool True),
                         (''interop'', JBool True), (''mutableNamespace'', JBool True),
                         (''namedExports'', JBool True), (''paths'', JBool True),
                         (''topLevelReturn'', JBool True), (''vars'', JBool True)]),
          (''await'', JBool False), (''cache'', JBool True),
          (''debug'', JBool False), (''mainFields'', JArr [JStr ''main'']),
          (''sourceMap'', JUndefined), (''warnings'', JBool False)]
   \<and> createOptions example_env
        (JObj [(''mode'', JNum 3),
          (''cjs'', JObj [(''cache'', JBool True), (''extensions'', JBool True),
                         (''interop'', JBool True), (''mutableNamespace'', JBool True),
                         (''namedExports'', JBool True), (''paths'', JBool True),
                         (''topLevelReturn'', JBool True), (''vars'', JBool True)]),
          (''await'', JBool False), (''cache'', JBool True),
          (''debug'', JBool False), (''mainFields'', JArr [JStr ''main'']),
          (''sourceMap'', JUndefined), (''warnings'', JBool False)]) =
     Inl (ERR_INVALID_ESM_OPTION ''mode'' (JNum 3))"
proof -
  let ?w = "example_env\<lparr>OPTIONS_MODE_ALL := JStr ''all'', OPTIONS_MODE_AUTO := JStr ''auto'',
                              OPTIONS_MODE_STRICT := JStr ''strict''\<rparr>"
  let ?val = "JObj [(''mode'', JStr ''strict''), (''cjs'', JBool True)]"
  let ?r = "\<lambda>m. [(''mode'', m),
          (''cjs'', JObj [(''cache'', JBool True), (''extensions'', JBool True),
                         (''interop'', JBool True), (''mutableNamespace'', JBool True),
                         (''namedExports'', JBool True), (''paths'', JBool True),
                         (''topLevelReturn'', JBool True), (''vars'', JBool True)]),
          (''await'', JBool False), (''cache'', JBool True),
          (''debug'', JBool False), (''mainFields'', JArr [JStr ''main'']),
          (''sourceMap'', JUndefined), (''warnings'', JBool False)]"
  have h1: "createOptions ?w ?val = Inr (?r (JStr ''strict''))"
    by (simp add: eval_options)
  have h2: "createOptions example_env ?val = Inr (?r (JNum 3))"
    by (simp add: eval_options)
  have c1: "OPTIONS_MODE_ALL ?w = JStr ''all'' \<and> OPTIONS_MODE_AUTO ?w = JStr ''auto'' \<and>
          OPTIONS_MODE_STRICT ?w = JStr ''strict''" by simp
  have c2: "obj_get (?r (JNum 3)) ''mode'' \<notin> {JStr ''all'', JStr ''auto'', JStr ''strict'', JUndefined}"
    by (simp add: obj_get_def)
  from createOptions_twice[OF h1] c1 have a: "createOptions ?w (JObj (?r (JStr ''strict''))) = Inr (?r (JStr ''strict''))"
    by blast
  from createOptions_twice[OF h2] c2 have b: "createOptions example_env (JObj (?r (JNum 3))) =
      Inl (ERR_INVALID_ESM_OPTION ''mode'' (obj_get (?r (JNum 3)) ''mode''))"
    by blast
  from h1 a b show ?thesis by (simp add: obj_get_def)
qed

text \<open>
  C2 as stated fails when the mode constants are numbers: the record returned for the
  empty options record is rejected when it is given to \<open>createOptions\<close> again.
\<close>

theorem createOptions_twice_counterexample:
  "createOptions example_env (JObj []) =
     Inr [(''cjs'', JObj [(''cache'', JBool True), (''extensions'', JBool True),
                         (''interop'', JBool True), (''mutableNamespace'', JBool True),
                         (''namedExports'', JBool True), (''paths'', JBool True),
                         (''topLevelReturn'', JBool False), (''vars'', JBool True)]),
          (''mode'', JNum 2), (''await'', JBool False), (''cache'', JBool True),
          (''debug'', JBool False), (''mainFields'', JArr [JStr ''main'']),
          (''sourceMap'', JUndefined), (''warnings'', JBool False)]
   \<and> createOptions example_env
        (JObj [(''cjs'', JObj [(''cache'', JBool True), (''extensions'', JBool True),
                         (''interop'', JBool True), (''mutableNamespace'', JBool True),
                         (''namedExports'', JBool True), (''paths'', JBool True),
                         (''topLevelReturn'', JBool False), (''vars'', JBool True)]),
               (''mode'', JNum 2), (''await'', JBool False), (''cache'', JBool True),
               (''debug'', JBool False), (''mainFields'', JArr [JStr ''main'']),
               (''sourceMap'', JUndefined), (''warnings'', JBool False)]) =
     Inl (ERR_INVALID_ESM_OPTION ''mode'' (JNum 2))"
  by (simp add: eval_options)

subsection \<open>Unknown keys and the legacy key \<open>sourcemap\<close>\<close>

lemma createOptions_names_first_rejected:
  "list_all (\<lambda>n. Reflect_has (defaultOptions w) n \<or> (n = ''sourcemap'' \<and> ''sourceMap'' \<notin> set pn)) pre \<Longrightarrow>
   \<not> Reflect_has (defaultOptions w) k \<Longrightarrow> k \<noteq> ''sourcemap'' \<or> ''sourceMap'' \<in> set pn \<Longrightarrow>
   createOptions_names w val pn (pre @ k # post) acc = Inl (ERR_UNKNOWN_ESM_OPTION k)"
proof (induction pre arbitrary: acc)
  case Nil
  obtain names options where acc: "acc = (names, options)" by (cases acc)
  from Nil show ?case by (auto simp: acc)
next
  case (Cons n pre)
  obtain names options where acc: "acc = (names, options)" by (cases acc)
  have IH: "createOptions_names w val pn (pre @ k # post) acc' = Inl (ERR_UNKNOWN_ESM_OPTION k)" for acc'
    using Cons.prems by (intro Cons.IH) auto
  from Cons.prems have "Reflect_has (defaultOptions w) n \<or> (n = ''sourcemap'' \<and> ''sourceMap'' \<notin> set pn)"
    by simp
  then show ?case
    by (auto simp: acc IH Let_def)
qed

lemma not_string_keys: "keys val \<noteq> [] \<Longrightarrow>
  (case val of JStr s \<Rightarrow> Inr ([''mode''], [(''mode'', val)])
            | _ \<Rightarrow> createOptions_names w val (keys val) (keys val) ([], []))
   = createOptions_names w val (keys val) (keys val) ([], [])"
  by (cases val) auto

lemma createOptions_loop_error:
  "keys val \<noteq> [] \<Longrightarrow> createOptions_names w val (keys val) (keys val) ([], []) = Inl e \<Longrightarrow>
   createOptions w val = Inl e"
  unfolding createOptions_def by (simp add: not_string_keys)




lemma not_Reflect_has_sourcemap: "\<not> Reflect_has (defaultOptions w) ''sourcemap''"
  by (simp add: Reflect_has_def defaultOptions_def object_prototype_names_def)

lemma first_unaccepted:
  "list_all (\<lambda>n. Reflect_has (defaultOptions w) n) (takeWhile (\<lambda>n. Reflect_has (defaultOptions w) n) ns)"
  by (induction ns) auto

lemma createOptions_both_sourcemaps:
  assumes both: "''sourceMap'' \<in> set (keys val)" and split: "keys val = pre @ ''sourcemap'' # post"
  shows "createOptions w val =
           Inl (ERR_UNKNOWN_ESM_OPTION
                  (case filter (\<lambda>n. \<not> Reflect_has (defaultOptions w) n) pre of
                     [] \<Rightarrow> ''sourcemap'' | k # _ \<Rightarrow> k))"
proof -
  let ?acc = "\<lambda>n. Reflect_has (defaultOptions w) n"
  let ?ok = "takeWhile ?acc pre"
  have okall: "list_all (\<lambda>n. ?acc n \<or> (n = ''sourcemap'' \<and> ''sourceMap'' \<notin> set (keys val))) ?ok"
    using first_unaccepted[of w pre] by (auto simp: list_all_iff)
  show ?thesis
  proof (cases "filter (\<lambda>n. \<not> ?acc n) pre")
    case Nil
    then have "list_all ?acc pre" by (auto simp: list_all_iff filter_empty_conv)
    then have "list_all (\<lambda>n. ?acc n \<or> (n = ''sourcemap'' \<and> ''sourceMap'' \<notin> set (keys val))) pre"
      by (auto simp: list_all_iff)
    then have "createOptions_names w val (keys val) (pre @ ''sourcemap'' # post) ([], []) =
                 Inl (ERR_UNKNOWN_ESM_OPTION ''sourcemap'')"
      using not_Reflect_has_sourcemap both by (intro createOptions_names_first_rejected) auto
    then have "createOptions w val = Inl (ERR_UNKNOWN_ESM_OPTION ''sourcemap'')"
      using split by (intro createOptions_loop_error) simp_all
    then show ?thesis by (simp add: Nil)
  next
    case (Cons k ks)
    then have ex: "\<exists>n \<in> set pre. \<not> ?acc n"
      by (metis filter_empty_conv list.distinct(1))
    then obtain rest where pre: "pre = ?ok @ rest" and rest: "rest \<noteq> []" and hd: "\<not> ?acc (hd rest)"
      by (metis takeWhile_dropWhile_id dropWhile_eq_Nil_conv hd_dropWhile)
    obtain k' rest' where r: "rest = k' # rest'" using rest by (cases rest) auto
    have "filter (\<lambda>n. \<not> ?acc n) ?ok = []"
      by (auto simp: filter_empty_conv dest: set_takeWhileD)
    then have "filter (\<lambda>n. \<not> ?acc n) pre = k' # filter (\<lambda>n. \<not> ?acc n) rest'"
      using hd by (subst pre) (simp add: r)
    then have kk: "k = k'" using Cons by simp
    have "createOptions_names w val (keys val) (?ok @ k' # (rest' @ ''sourcemap'' # post)) ([], []) =
                 Inl (ERR_UNKNOWN_ESM_OPTION k')"
      using okall hd both by (intro createOptions_names_first_rejected) (auto simp: r)
    moreover have "keys val = ?ok @ k' # (rest' @ ''sourcemap'' # post)"
      using split pre r by (metis append.assoc append_Cons)
    ultimately have "createOptions w val = Inl (ERR_UNKNOWN_ESM_OPTION k')"
      by (intro createOptions_loop_error) simp_all
    then show ?thesis by (simp add: Cons kk)
  qed
qed

lemma createOptions_names_sourceMap:
  "createOptions_names w val pn ns (names, options) = Inr (names', options') \<Longrightarrow>
   ''sourceMap'' \<notin> set ns \<Longrightarrow>
   obj_get options' ''sourceMap'' =
     (if ''sourcemap'' \<in> set ns \<and> js_prop val ''sourcemap'' \<noteq> JUndefined
      then JBool (truthy (js_prop val ''sourcemap'')) else obj_get options ''sourceMap'')
   \<and> (''sourcemap'' \<in> fst ` set options' \<longleftrightarrow> ''sourcemap'' \<in> fst ` set options)"
proof (induction ns arbitrary: names options)
  case Nil
  then show ?case by simp
next
  case (Cons n ns)
  note nr = not_Reflect_has_sourcemap[of w]
  consider (known) "Reflect_has (defaultOptions w) n"
    | (aliased) "\<not> Reflect_has (defaultOptions w) n" "n = ''sourcemap''" "''sourceMap'' \<notin> set pn"
    | (bad) "\<not> Reflect_has (defaultOptions w) n" "\<not> (n = ''sourcemap'' \<and> ''sourceMap'' \<notin> set pn)"
    by blast
  then show ?case
  proof cases
    case known
    then have n: "n \<noteq> ''sourcemap''" using nr by auto
    from Cons.prems known have
      "createOptions_names w val pn ns (names @ [n], assign_member options n (js_prop val n)) = Inr (names', options')"
      by simp
    from Cons.IH[OF this] Cons.prems(2) n show ?thesis
      by (auto simp: obj_get_assign_member dom_assign_member)
  next
    case aliased
    show ?thesis
    proof (cases "js_prop val ''sourcemap'' = JUndefined")
      case True
      with Cons.prems aliased have
        "createOptions_names w val pn ns (names, options) = Inr (names', options')"
        by (simp add: Let_def)
      from Cons.IH[OF this] Cons.prems(2) aliased True show ?thesis by auto
    next
      case False
      with Cons.prems aliased have
        "createOptions_names w val pn ns (names @ [''sourceMap''],
            assign_member options ''sourceMap'' (JBool (truthy (js_prop val ''sourcemap'')))) = Inr (names', options')"
        by (simp add: Let_def)
      from Cons.IH[OF this] Cons.prems(2) aliased False show ?thesis
        by (auto simp: obj_get_assign_member dom_assign_member)
    qed
  next
    case bad
    with Cons.prems show ?thesis by auto
  qed
qed

text \<open>
  C10 (amended). For an options record that has both \<open>sourceMap\<close> and \<open>sourcemap\<close>,
  \<open>createOptions\<close> raises the unknown-option error for the first key that
  \<open>Reflect.has\<close> does not find in \<open>defaultOptions\<close>: for \<open>sourcemap\<close>, unless such a key
  comes before it, and then for that key. When \<open>createOptions\<close> returns a record \<open>r\<close> for
  a value that has the key \<open>sourcemap\<close>, the value has no key \<open>sourceMap\<close>, \<open>r\<close> has no
  member \<open>sourcemap\<close>, and the \<open>sourceMap\<close> of \<open>r\<close> is the \<open>sourcemap\<close> value coerced to
  a boolean, or \<open>undefined\<close> when that value is \<open>undefined\<close>.
\<close>

theorem sourcemap_alias:
  "(''sourceMap'' \<in> set (keys val) \<and> keys val = pre @ ''sourcemap'' # post \<longrightarrow>
      createOptions w val =
        Inl (ERR_UNKNOWN_ESM_OPTION
               (case filter (\<lambda>n. \<not> Reflect_has (defaultOptions w) n) pre of
                  [] \<Rightarrow> ''sourcemap'' | k # ks \<Rightarrow> k)))
   \<and> (createOptions w val = Inr r \<and> ''sourcemap'' \<in> set (keys val) \<longrightarrow>
        ''sourceMap'' \<notin> set (keys val) \<and> ''sourcemap'' \<notin> fst ` set r \<and>
        obj_get r ''sourceMap'' =
          (if js_prop val ''sourcemap'' = JUndefined then JUndefined
           else JBool (truthy (js_prop val ''sourcemap''))))"
proof (intro conjI impI)
  assume "''sourceMap'' \<in> set (keys val) \<and> keys val = pre @ ''sourcemap'' # post"
  then show "createOptions w val =
        Inl (ERR_UNKNOWN_ESM_OPTION
               (case filter (\<lambda>n. \<not> Reflect_has (defaultOptions w) n) pre of
                  [] \<Rightarrow> ''sourcemap'' | k # ks \<Rightarrow> k))"
    using createOptions_both_sourcemaps by blast
next
  assume a: "createOptions w val = Inr r \<and> ''sourcemap'' \<in> set (keys val)"
  then have res: "createOptions w val = Inr r" and al: "''sourcemap'' \<in> set (keys val)"
    by simp_all
  from al obtain pre' post' where split: "keys val = pre' @ ''sourcemap'' # post'"
    by (auto simp: in_set_conv_decomp)
  show absent: "''sourceMap'' \<notin> set (keys val)"
  proof
    assume "''sourceMap'' \<in> set (keys val)"
    from createOptions_both_sourcemaps[OF this split, of w] res show False by simp
  qed
  from al have ne: "keys val \<noteq> []" by auto
  from createOptions_result(3)[OF res] obtain names options0 where
    loop: "createOptions_names w val (keys val) (keys val) ([], []) = Inr (names, options0)"
    and dom: "fst ` set r = fst ` set options0 \<union> fst ` set (defaultOptions w)"
    and frame: "\<forall>k. k \<notin> {''warnings'', ''debug'', ''cache'', ''mode'', ''mainFields'', ''cjs''} \<longrightarrow>
                obj_get r k = (if obj_get options0 k = JUndefined
                               then obj_get (defaultOptions w) k else obj_get options0 k)"
    unfolding not_string_keys[OF ne] by blast
  note sm = createOptions_names_sourceMap[OF loop absent]
  from sm have "''sourcemap'' \<notin> fst ` set options0" by simp
  then show "''sourcemap'' \<notin> fst ` set r"
    unfolding dom by (simp add: defaultOptions_def)
  have "obj_get r ''sourceMap'' = obj_get options0 ''sourceMap''"
    using frame by (simp add: defaultOptions_def obj_get_def)
  also have "\<dots> = (if js_prop val ''sourcemap'' = JUndefined then JUndefined
           else JBool (truthy (js_prop val ''sourcemap'')))"
    using sm al by (simp add: obj_get_def)
  finally show "obj_get r ''sourceMap'' =
          (if js_prop val ''sourcemap'' = JUndefined then JUndefined
           else JBool (truthy (js_prop val ''sourcemap'')))" .
qed

theorem sourcemap_alias_witness:
  "createOptions example_env (JObj [(''sourceMap'', JBool False), (''sourcemap'', JBool True)]) =
     Inl (ERR_UNKNOWN_ESM_OPTION ''sourcemap'')
   \<and> (\<exists>r. createOptions example_env (JObj [(''sourcemap'', JNum 1)]) = Inr r
          \<and> ''sourcemap'' \<notin> fst ` set r \<and> obj_get r ''sourceMap'' = JBool True)"
proof -
  let ?v1 = "JObj [(''sourceMap'', JBool False), (''sourcemap'', JBool True)]"
  let ?v2 = "JObj [(''sourcemap'', JNum 1)]"
  have h1: "''sourceMap'' \<in> set (keys ?v1) \<and> keys ?v1 = [''sourceMap''] @ ''sourcemap'' # []"
    by simp
  from sourcemap_alias[of ?v1 "[''sourceMap'']" "[]" example_env, THEN conjunct1] h1
  have a: "createOptions example_env ?v1 =
        Inl (ERR_UNKNOWN_ESM_OPTION
               (case filter (\<lambda>n. \<not> Reflect_has (defaultOptions example_env) n) [''sourceMap''] of
                  [] \<Rightarrow> ''sourcemap'' | k # ks \<Rightarrow> k))"
    by blast
  obtain r where r: "createOptions example_env ?v2 = Inr r"
    by (simp add: eval_options)
  have h2: "createOptions example_env ?v2 = Inr r \<and> ''sourcemap'' \<in> set (keys ?v2)"
    using r by simp
  from sourcemap_alias[of ?v2 _ _ example_env r, THEN conjunct2] h2
  have b: "''sourcemap'' \<notin> fst ` set r \<and>
        obj_get r ''sourceMap'' =
          (if js_prop ?v2 ''sourcemap'' = JUndefined then JUndefined
           else JBool (truthy (js_prop ?v2 ''sourcemap'')))"
    by blast
  from a have a': "createOptions example_env ?v1 = Inl (ERR_UNKNOWN_ESM_OPTION ''sourcemap'')"
    by (simp add: Reflect_has_def defaultOptions_def)
  from b have b': "''sourcemap'' \<notin> fst ` set r \<and> obj_get r ''sourceMap'' = JBool True"
    by (simp add: obj_get_def)
  from a' r b' show ?thesis by blast
qed

text \<open>
  C10 as stated fails: \<open>{foo: 1, sourceMap: true, sourcemap: true}\<close> has both keys, and
  the error names \<open>foo\<close>.
\<close>

theorem sourcemap_alias_counterexample:
  "createOptions example_env
     (JObj [(''foo'', JNum 1), (''sourceMap'', JBool True), (''sourcemap'', JBool True)]) =
     Inl (ERR_UNKNOWN_ESM_OPTION ''foo'')"
  by (simp add: eval_options)

section \<open>Properties of the caching compiler\<close>

subsection \<open>The file primitives\<close>

lemma map_of_filter_other:
  "(\<forall>e \<in> set fs. fst e = q \<longrightarrow> P e) \<Longrightarrow> map_of (filter P fs) q = map_of fs q"
  by (induction fs) auto

lemma map_of_removeFile_other: "q \<noteq> p \<Longrightarrow> map_of (removeFile fs p) q = map_of fs q"
  unfolding removeFile_def by (rule map_of_filter_other) auto

lemma map_of_removeFile_same: "map_of (removeFile fs p) p \<in> {None, Some Dir}"
proof -
  have "map_of (filter (\<lambda>e. \<not> (fst e = p \<and> snd e \<noteq> Dir)) fs) p \<in> {None, Some Dir}"
    by (induction fs) auto
  then show ?thesis by (simp add: removeFile_def)
qed


lemma isFile_removeFile:
  "isFile (removeFile fs p) q \<longleftrightarrow> q \<noteq> p \<and> isFile fs q"
proof (cases "q = p")
  case True
  then show ?thesis using map_of_removeFile_same[of fs p] by (auto simp: isFile_def)
next
  case False
  then show ?thesis by (simp add: isFile_def map_of_removeFile_other)
qed

lemma map_of_writeFile_other: "q \<noteq> p \<Longrightarrow> map_of (writeFile fs p c) q = map_of fs q"
proof -
  assume q: "q \<noteq> p"
  have "map_of (map (\<lambda>e. if fst e = p then (p, File c) else e) fs) q = map_of fs q"
    using q by (induction fs) auto
  then show ?thesis using q by (auto simp: writeFile_def map_add_def split: option.splits)
qed

lemma map_of_writeFile_same: "map_of (writeFile fs p c) p = Some (File c)"
proof (cases "p \<in> set (map fst fs)")
  case True
  then have "map_of (map (\<lambda>e. if fst e = p then (p, File c) else e) fs) p = Some (File c)"
    by (induction fs) auto
  then show ?thesis using True by (simp add: writeFile_def)
next
  case False
  then have "map_of fs p = None" by (simp add: map_of_eq_None_iff)
  then show ?thesis using False by (simp add: writeFile_def map_add_def)
qed

lemma readFile_writeFile:
  "readFile (writeFile fs p c) q = (if q = p then Some c else readFile fs q)"
  by (simp add: readFile_def map_of_writeFile_same map_of_writeFile_other)

subsection \<open>Expiry\<close>





lemma shares_prefix_startsWith: "take 8 key = take 8 E \<Longrightarrow> startsWith key (take 8 E)"
  unfolding startsWith_def
  by (metis append_eq_conv_conj append_take_drop_id take_take min.idem length_take)



text \<open>
  C6. When the translator returns a result, \<open>compileAndWrite\<close> returns it, registers it
  in the cache of the package under the entry's name and leaves the disk alone. If the
  type of the result is not \<open>"module"\<close> (so for \<open>"script"\<close> and \<open>"unambiguous"\<close>) no
  deferred write is issued, and the same holds for \<open>Compiler.compile\<close>; if the type is
  \<open>"module"\<close>, exactly one write is issued, for the file \<open>cachePath/cacheFileName\<close>.
\<close>

theorem only_module_results_are_written:
  assumes tr: "translate ce code (toCompileOptions options) = Inr result"
  shows "fst (compileAndWrite ce code options st) = Inr result
       \<and> map_of (caches (snd (compileAndWrite ce code options st)) (pi_cache (pkgInfo options)))
                 (cacheFileName options) = Some result
       \<and> disk (snd (compileAndWrite ce code options st)) = disk st
       \<and> (rtype result \<noteq> ''module'' \<longrightarrow>
            pending (snd (compileAndWrite ce code options st)) = pending st)
       \<and> (rtype result = ''module'' \<longrightarrow>
            (\<exists>wr. pending (snd (compileAndWrite ce code options st)) = pending st @ [wr]
                 \<and> dw_path wr = cachePath options @ [cacheFileName options]))
       \<and> (rtype result \<noteq> ''module'' \<longrightarrow>
            fst (compile ce code options st) = Inr result
          \<and> pending (snd (compile ce code options st)) = pending st
          \<and> disk (snd (compile ce code options st)) = disk st
          \<and> map_of (caches (snd (compile ce code options st)) (pi_cache (pkgInfo options)))
                 (cacheFileName options) = Some result)"
proof -
  have cache: "compileAndCache ce code options st =
     (Inr result,
      st\<lparr>caches := (caches st)(pi_cache (pkgInfo options) :=
            obj_set (caches st (pi_cache (pkgInfo options))) (cacheFileName options) result)\<rparr>)"
    using tr by (simp add: compileAndCache_def Let_def)
  have reg: "map_of (obj_set (caches st (pi_cache (pkgInfo options))) (cacheFileName options) result)
               (cacheFileName options) = Some result"
    by (simp add: map_of_obj_set)
  show ?thesis
    using reg
    by (cases "filePath options")
       (auto simp: compileAndWrite_def compile_def compileWithFilename_def cache Let_def
                   writeFileDefer_def)
qed

theorem only_module_results_are_written_witness:
  "fst (compileAndWrite example_compiler_env ''x = 1'' (example_compiler_options ''a.js'')
          example_compiler_state) = Inr \<lparr>rtype = ''script'', rcode = ''x = 1''\<rparr>
   \<and> pending (snd (compileAndWrite example_compiler_env ''x = 1'' (example_compiler_options ''a.js'')
          example_compiler_state)) = pending example_compiler_state
   \<and> map_of (caches (snd (compileAndWrite example_compiler_env ''x = 1''
          (example_compiler_options ''a.js'') example_compiler_state)) 0) ''0123abcd-new.js''
       = Some \<lparr>rtype = ''script'', rcode = ''x = 1''\<rparr>
   \<and> (\<exists>wr. pending (snd (compileAndWrite example_compiler_env ''export {}''
          (example_compiler_options ''a.mjs'') example_compiler_state))
        = pending example_compiler_state @ [wr]
        \<and> dw_path wr = [''app'', ''cache'', ''0123abcd-new.js''])"
proof -
  have s: "translate example_compiler_env ''x = 1'' (toCompileOptions (example_compiler_options ''a.js''))
             = Inr \<lparr>rtype = ''script'', rcode = ''x = 1''\<rparr>"
    by (simp add: example_compiler_env_def example_compiler_options_def toCompileOptions_def
        extname_def basename_def Let_def)
  have m: "translate example_compiler_env ''export {}'' (toCompileOptions (example_compiler_options ''a.mjs''))
             = Inr \<lparr>rtype = ''module'', rcode = ''export {}''\<rparr>"
    by (simp add: example_compiler_env_def example_compiler_options_def toCompileOptions_def
        extname_def basename_def Let_def)
  note ts = only_module_results_are_written[OF s, of example_compiler_state]
  note tm = only_module_results_are_written[OF m, of example_compiler_state]
  have a: "fst (compileAndWrite example_compiler_env ''x = 1'' (example_compiler_options ''a.js'')
          example_compiler_state) = Inr \<lparr>rtype = ''script'', rcode = ''x = 1''\<rparr>"
    using ts by blast
  have b: "pending (snd (compileAndWrite example_compiler_env ''x = 1'' (example_compiler_options ''a.js'')
          example_compiler_state)) = pending example_compiler_state"
    using ts by simp
  have c: "map_of (caches (snd (compileAndWrite example_compiler_env ''x = 1''
          (example_compiler_options ''a.js'') example_compiler_state))
            (pi_cache (pkgInfo (example_compiler_options ''a.js''))))
            (cacheFileName (example_compiler_options ''a.js''))
       = Some \<lparr>rtype = ''script'', rcode = ''x = 1''\<rparr>"
    using ts by blast
  have d: "\<exists>wr. pending (snd (compileAndWrite example_compiler_env ''export {}''
          (example_compiler_options ''a.mjs'') example_compiler_state))
        = pending example_compiler_state @ [wr]
        \<and> dw_path wr = cachePath (example_compiler_options ''a.mjs'') @
                         [cacheFileName (example_compiler_options ''a.mjs'')]"
    using tm by simp
  from a b c d show ?thesis
    by (simp add: example_compiler_options_def)
qed

section \<open>Properties of the cache load\<close>

lemma scan_dirty:
  "hasDirtyMarker (scan_names ns sc) \<longleftrightarrow> hasDirtyMarker sc \<or> ''.dirty'' \<in> set ns"
  by (induction ns arbitrary: sc) (auto split: list.splits)

lemma scan_nyc:
  "hasNycMarker (scan_names ns sc) \<longleftrightarrow>
     hasNycMarker sc \<or> ''.nyc'' \<in> set (takeWhile (\<lambda>n. n \<noteq> ''.dirty'') ns)"
  by (induction ns arbitrary: sc) (auto split: list.splits)

lemma scan_map:
  "hasMap (scan_names ns sc) \<longleftrightarrow>
     hasMap sc \<or> ''.data.json'' \<in> set (takeWhile (\<lambda>n. n \<noteq> ''.dirty'') ns)"
  by (induction ns arbitrary: sc) (auto split: list.splits)

lemma isFile_sweep:
  "isFile (fold (\<lambda>cacheName fs'. if extname cacheName = ''.json''
                                then removeFile fs' (b @ [cacheName])
                                else fs') ns fs0) p \<Longrightarrow> isFile fs0 p"
proof (induction ns arbitrary: fs0)
  case Nil
  then show ?case by simp
next
  case (Cons a ns)
  show ?case
  proof (cases "extname a = ''.json''")
    case True
    with Cons.prems have "isFile (fold (\<lambda>cacheName fs'. if extname cacheName = ''.json''
                                then removeFile fs' (b @ [cacheName])
                                else fs') ns (removeFile fs0 (b @ [a]))) p"
      by simp
    then have "isFile (removeFile fs0 (b @ [a])) p" by (rule Cons.IH)
    then show ?thesis by (simp add: isFile_removeFile)
  next
    case False
    with Cons.prems have "isFile (fold (\<lambda>cacheName fs'. if extname cacheName = ''.json''
                                then removeFile fs' (b @ [cacheName])
                                else fs') ns fs0) p"
      by simp
    then show ?thesis by (rule Cons.IH)
  qed
qed

lemma isFile_clearBabelCache: "isFile (clearBabelCache fs cPath) p \<Longrightarrow> isFile fs p"
  unfolding clearBabelCache_def Let_def by (rule isFile_sweep)

text \<open>\<open>load_cache\<close> by the flags of the scan.\<close>

lemma load_cache_cases:
  fixes w fs cp
  defines "sc \<equiv> scan_names (readdir fs cp) scan_init"
  defines "dataJSON \<equiv> readJSON w fs (cp @ [''.data.json''])"
  defines "fs1 \<equiv> (if hasDirtyMarker sc then removeFile fs (cp @ [''.dirty'']) else fs)"
  defines "fs2 \<equiv> (if \<not> NYC w \<and> hasNycMarker sc then removeFile fs1 (cp @ [''.nyc'']) else fs1)"
  shows "hasDirtyMarker sc \<or> NYC w \<noteq> hasNycMarker sc \<Longrightarrow>
           load_cache w fs cp =
             Inr (\<lparr>buffer = Some [], compile_index = Some [], cmap = JObj []\<rparr>,
                  clearBabelCache fs2 cp)"
    and "\<not> hasDirtyMarker sc \<Longrightarrow> NYC w = hasNycMarker sc \<Longrightarrow> hasMap sc \<Longrightarrow>
           dataJSON = JNull \<or> dataJSON = JUndefined \<Longrightarrow> load_cache w fs cp = Inl TypeError"
    and "\<not> hasDirtyMarker sc \<Longrightarrow> NYC w = hasNycMarker sc \<Longrightarrow> hasMap sc \<Longrightarrow>
           dataJSON \<noteq> JNull \<Longrightarrow> dataJSON \<noteq> JUndefined \<Longrightarrow>
           js_prop dataJSON ''version'' \<noteq> JStr (PKG_VERSION w) \<Longrightarrow>
           load_cache w fs cp =
             Inr (\<lparr>buffer = Some [], compile_index = Some [], cmap = JObj []\<rparr>,
                  clearBabelCache fs cp)"
    and "\<not> hasDirtyMarker sc \<Longrightarrow> NYC w = hasNycMarker sc \<Longrightarrow> hasMap sc \<Longrightarrow>
           dataJSON \<noteq> JNull \<Longrightarrow> dataJSON \<noteq> JUndefined \<Longrightarrow>
           js_prop dataJSON ''version'' = JStr (PKG_VERSION w) \<Longrightarrow>
           load_cache w fs cp =
             Inr (\<lparr>buffer = (if hasBuffer sc then readFile fs (cp @ [''.data.blob'']) else Some []),
                    compile_index = Some (compileCache sc),
                    cmap = js_prop dataJSON ''map''\<rparr>, fs)"
    and "\<not> hasDirtyMarker sc \<Longrightarrow> NYC w = hasNycMarker sc \<Longrightarrow> \<not> hasMap sc \<Longrightarrow>
           load_cache w fs cp =
             Inr (\<lparr>buffer = (if hasBuffer sc then readFile fs (cp @ [''.data.blob'']) else Some []),
                    compile_index = Some (compileCache sc),
                    cmap = JObj []\<rparr>, fs)"
proof -
  show "hasDirtyMarker sc \<or> NYC w \<noteq> hasNycMarker sc \<Longrightarrow>
           load_cache w fs cp =
             Inr (\<lparr>buffer = Some [], compile_index = Some [], cmap = JObj []\<rparr>,
                  clearBabelCache fs2 cp)"
    unfolding load_cache_def Let_def sc_def[symmetric] fs2_def fs1_def
    by (cases "hasDirtyMarker sc"; cases "NYC w"; cases "hasNycMarker sc") simp_all
  show "\<not> hasDirtyMarker sc \<Longrightarrow> NYC w = hasNycMarker sc \<Longrightarrow> hasMap sc \<Longrightarrow>
           dataJSON = JNull \<or> dataJSON = JUndefined \<Longrightarrow> load_cache w fs cp = Inl TypeError"
    unfolding load_cache_def Let_def sc_def[symmetric] dataJSON_def[symmetric]
    by (cases "NYC w") auto
  show "\<not> hasDirtyMarker sc \<Longrightarrow> NYC w = hasNycMarker sc \<Longrightarrow> hasMap sc \<Longrightarrow>
           dataJSON \<noteq> JNull \<Longrightarrow> dataJSON \<noteq> JUndefined \<Longrightarrow>
           js_prop dataJSON ''version'' \<noteq> JStr (PKG_VERSION w) \<Longrightarrow>
           load_cache w fs cp =
             Inr (\<lparr>buffer = Some [], compile_index = Some [], cmap = JObj []\<rparr>,
                  clearBabelCache fs cp)"
    unfolding load_cache_def Let_def sc_def[symmetric] dataJSON_def[symmetric]
    by (cases "NYC w") simp_all
  show "\<not> hasDirtyMarker sc \<Longrightarrow> NYC w = hasNycMarker sc \<Longrightarrow> hasMap sc \<Longrightarrow>
           dataJSON \<noteq> JNull \<Longrightarrow> dataJSON \<noteq> JUndefined \<Longrightarrow>
           js_prop dataJSON ''version'' = JStr (PKG_VERSION w) \<Longrightarrow>
           load_cache w fs cp =
             Inr (\<lparr>buffer = (if hasBuffer sc then readFile fs (cp @ [''.data.blob'']) else Some []),
                    compile_index = Some (compileCache sc),
                    cmap = js_prop dataJSON ''map''\<rparr>, fs)"
    unfolding load_cache_def Let_def sc_def[symmetric] dataJSON_def[symmetric]
    by (cases "NYC w") simp_all
  show "\<not> hasDirtyMarker sc \<Longrightarrow> NYC w = hasNycMarker sc \<Longrightarrow> \<not> hasMap sc \<Longrightarrow>
           load_cache w fs cp =
             Inr (\<lparr>buffer = (if hasBuffer sc then readFile fs (cp @ [''.data.blob'']) else Some []),
                    compile_index = Some (compileCache sc),
                    cmap = JObj []\<rparr>, fs)"
    unfolding load_cache_def Let_def sc_def[symmetric]
    by (cases "NYC w") simp_all
qed

lemma Package_new_fresh:
  assumes "createOptions w options = Inr opts" "cachePath_of dirPath opts = Some cp"
    "dir_reg s (Some cp) = None"
  shows "Package_new w s dirPath rng options =
     (case load_cache w (files s) cp of
        Inl e \<Rightarrow> (Inl e, s\<lparr>dir_reg := (dir_reg s)(Some cp \<mapsto>
                                  \<lparr>buffer = None, compile_index = None, cmap = JNull\<rparr>)\<rparr>)
      | Inr (cache, fs') \<Rightarrow>
          (Inr (length (heap s)),
           s\<lparr>dir_reg := (dir_reg s)(Some cp \<mapsto> cache), files := fs',
             heap := heap s @ [\<lparr>pkg_cachePath = Some cp, pkg_dirPath = dirPath,
                                 pkg_options = opts, pkg_range = rng\<rparr>]\<rparr>))"
  using assms unfolding Package_new_def Let_def
  by (simp split: sum.splits prod.splits)

text \<open>
  The markers that the load removes. The constructor loads the cache of a cache path that
  has none yet. If the listing of the cache directory contains \<open>.dirty\<close>, the load
  completes and there is no file \<open>.dirty\<close> afterwards. If instrumentation is off and
  \<open>.nyc\<close> is listed before any \<open>.dirty\<close>, the load completes and there is no file
  \<open>.nyc\<close> afterwards. Neither removal depends on any other test of validity.
\<close>

lemma markers_removed_on_load:
  assumes "createOptions w options = Inr opts" "cachePath_of dirPath opts = Some cp"
    "dir_reg s (Some cp) = None"
  shows "(''.dirty'' \<in> set (readdir (files s) cp) \<longrightarrow>
            (\<exists>ref. fst (Package_new w s dirPath rng options) = Inr ref) \<and>
            \<not> isFile (files (snd (Package_new w s dirPath rng options))) (cp @ [''.dirty'']))
       \<and> (\<not> NYC w \<and> ''.nyc'' \<in> set (takeWhile (\<lambda>n. n \<noteq> ''.dirty'') (readdir (files s) cp)) \<longrightarrow>
            (\<exists>ref. fst (Package_new w s dirPath rng options) = Inr ref) \<and>
            \<not> isFile (files (snd (Package_new w s dirPath rng options))) (cp @ [''.nyc'']))"
proof -
  let ?sc = "scan_names (readdir (files s) cp) scan_init"
  let ?fs1 = "if hasDirtyMarker ?sc then removeFile (files s) (cp @ [''.dirty'']) else files s"
  let ?fs2 = "if \<not> NYC w \<and> hasNycMarker ?sc then removeFile ?fs1 (cp @ [''.nyc'']) else ?fs1"
  have d: "hasDirtyMarker ?sc \<longleftrightarrow> ''.dirty'' \<in> set (readdir (files s) cp)"
    by (simp add: scan_dirty scan_init_def)
  have n: "hasNycMarker ?sc \<longleftrightarrow>
      ''.nyc'' \<in> set (takeWhile (\<lambda>n. n \<noteq> ''.dirty'') (readdir (files s) cp))"
    by (simp add: scan_nyc scan_init_def)
  have res: "fst (Package_new w s dirPath rng options) = Inr (length (heap s))
           \<and> files (snd (Package_new w s dirPath rng options)) = clearBabelCache ?fs2 cp"
    if "hasDirtyMarker ?sc \<or> NYC w \<noteq> hasNycMarker ?sc"
    unfolding Package_new_fresh[OF assms] load_cache_cases(1)[OF that] by simp
  have gone: "\<not> isFile (clearBabelCache ?fs2 cp) p" if "\<not> isFile ?fs2 p" for p
    using that isFile_clearBabelCache by blast
  have dirty: "\<not> isFile ?fs2 (cp @ [''.dirty''])" if "hasDirtyMarker ?sc"
    using that by (simp add: isFile_removeFile)
  have nyc: "\<not> isFile ?fs2 (cp @ [''.nyc''])" if "\<not> NYC w" "hasNycMarker ?sc"
    using that by (simp add: isFile_removeFile)
  show ?thesis
  proof (intro conjI impI)
    assume a: "''.dirty'' \<in> set (readdir (files s) cp)"
    then have h: "hasDirtyMarker ?sc" using d by simp
    then have r: "hasDirtyMarker ?sc \<or> NYC w \<noteq> hasNycMarker ?sc" by simp
    show "\<exists>ref. fst (Package_new w s dirPath rng options) = Inr ref"
      using res[OF r] by blast
    show "\<not> isFile (files (snd (Package_new w s dirPath rng options))) (cp @ [''.dirty''])"
      using res[OF r] gone[OF dirty[OF h]] by simp
  next
    assume a: "\<not> NYC w \<and> ''.nyc'' \<in> set (takeWhile (\<lambda>n. n \<noteq> ''.dirty'') (readdir (files s) cp))"
    then have h: "\<not> NYC w" "hasNycMarker ?sc" using n by simp_all
    then have r: "hasDirtyMarker ?sc \<or> NYC w \<noteq> hasNycMarker ?sc" by simp
    show "\<exists>ref. fst (Package_new w s dirPath rng options) = Inr ref"
      using res[OF r] by blast
    show "\<not> isFile (files (snd (Package_new w s dirPath rng options))) (cp @ [''.nyc''])"
      using res[OF r] gone[OF nyc[OF h]] by simp
  qed
qed

text \<open>
  C4 (the accessor \<open>get\<close> is modelled from the spec). The constructor loads the cache
  of a cache path that has none yet; \<open>.data.json\<close> is listed in the cache directory, can
  be read, and its \<open>version\<close> is not the running \<open>PKG_VERSION\<close>. Then the constructor
  returns a package whose cache has the empty index, the empty buffer and the empty
  map, and \<open>get\<close> is \<open>undefined\<close> for every entry name.
\<close>

theorem version_mismatch_clears_cache:
  assumes opts: "createOptions w options = Inr opts"
    and cp: "cachePath_of dirPath opts = Some cp"
    and fresh: "dir_reg s (Some cp) = None"
    and listed: "''.data.json'' \<in> set (readdir (files s) cp)"
    and readable: "readJSON w (files s) (cp @ [''.data.json'']) \<noteq> JNull"
                  "readJSON w (files s) (cp @ [''.data.json'']) \<noteq> JUndefined"
    and stamp: "js_prop (readJSON w (files s) (cp @ [''.data.json''])) ''version''
                  \<noteq> JStr (PKG_VERSION w)"
  shows "\<exists>ref s' cache.
           Package_new w s dirPath rng options = (Inr ref, s')
         \<and> pkg_cachePath (heap s' ! ref) = Some cp
         \<and> dir_reg s' (Some cp) = Some cache
         \<and> compile_index cache = Some [] \<and> buffer cache = Some [] \<and> cmap cache = JObj []
         \<and> (\<forall>name. cache_get cache name = JUndefined)"
proof -
  let ?sc = "scan_names (readdir (files s) cp) scan_init"
  let ?cleared = "\<lparr>buffer = Some [], compile_index = Some [], cmap = JObj []\<rparr>"
  have "\<exists>fs'. load_cache w (files s) cp = Inr (?cleared, fs')"
  proof (cases "hasDirtyMarker ?sc \<or> NYC w \<noteq> hasNycMarker ?sc")
    case True
    then show ?thesis using load_cache_cases(1) by blast
  next
    case False
    then have nd: "\<not> hasDirtyMarker ?sc" and ny: "NYC w = hasNycMarker ?sc" by simp_all
    from nd have "''.dirty'' \<notin> set (readdir (files s) cp)" by (simp add: scan_dirty scan_init_def)
    then have tw: "takeWhile (\<lambda>n. n \<noteq> ''.dirty'') (readdir (files s) cp) = readdir (files s) cp"
      unfolding takeWhile_eq_all_conv by blast
    have m: "hasMap ?sc" unfolding scan_map tw using listed by blast
    show ?thesis using load_cache_cases(3)[OF nd ny m readable stamp] by blast
  qed
  then obtain fs' where lc: "load_cache w (files s) cp = Inr (?cleared, fs')" by blast
  have g: "cache_get ?cleared name = JUndefined" for name
    by (simp add: cache_get_def obj_get_def)
  show ?thesis
    unfolding Package_new_fresh[OF opts cp fresh] lc
    using g by simp
qed

lemma example_default_options:
  "\<exists>opts. createOptions example_env JUndefined = Inr opts
        \<and> cachePath_of [''app''] opts = Some example_cache_dir"
  by (simp add: eval_options cachePath_of_def example_cache_dir_def)

lemma markers_removed_on_load_example:
  "\<not> isFile (files (snd (Package_new example_env (example_state example_marker_files)
                          [''app''] (JStr ''*'') JUndefined)))
             (example_cache_dir @ [''.dirty''])
   \<and> \<not> isFile (files (snd (Package_new example_env (example_state example_marker_files)
                          [''app''] (JStr ''*'') JUndefined)))
             (example_cache_dir @ [''.nyc''])"
proof -
  obtain opts where o: "createOptions example_env JUndefined = Inr opts"
    and c: "cachePath_of [''app''] opts = Some example_cache_dir"
    using example_default_options by blast
  have f: "dir_reg (example_state example_marker_files) (Some example_cache_dir) = None"
    by (simp add: example_state_def)
  have l: "readdir (files (example_state example_marker_files)) example_cache_dir =
             [''0123abcd-old.js'', ''.nyc'', ''.dirty'']"
    by (simp add: readdir_def example_state_def example_marker_files_def example_cache_dir_def)
  have d: "''.dirty'' \<in> set (readdir (files (example_state example_marker_files)) example_cache_dir)"
    unfolding l by simp
  have n: "\<not> NYC example_env \<and> ''.nyc'' \<in> set (takeWhile (\<lambda>n. n \<noteq> ''.dirty'')
              (readdir (files (example_state example_marker_files)) example_cache_dir))"
    unfolding l by (simp add: example_env_def)
  from markers_removed_on_load[OF o c f, of "JStr ''*''"] d n show ?thesis by blast
qed

lemmas eval_resolution =
  readInfo_options_def readInfo_finish_def Package_new_def cachePath_of_def load_cache_def
  readFile_def readFileFast_def isFile_def readdir_def removeFile_def findPath_def searchExts_def
  clearBabelCache_def resolve_def scan_init_def getRange_def js_or_def parse_text_def
  basename_def dirname_def example_state_def example_manifest_def

lemma example_env_values:
  "OPTIONS example_env = JUndefined" "RANGE_ALL example_env = JStr ''*''"
  "NYC example_env = False"
  "parseJSON example_env ''{devDependencies:{esm:^3.0.0}}'' = example_manifest"
  "parseJSON6 example_env ''{}'' = JObj []"
  "validRange example_env (JStr ''^3.0.0'') = JStr ''>=3.0.0 <4.0.0''"
  by (simp_all add: example_env_def)

lemma example_default_record_eval:
  "createOptions example_env JUndefined = Inr example_default_record"
  "createOptions example_env (JObj []) = Inr example_default_record"
  "map_of example_default_record ''cache'' = Some (JBool True)"
  by (simp_all add: eval_options example_default_record_def)

text \<open>
  C5. The scan of the listing stops at \<open>.dirty\<close>. For a cache directory that lists
  \<open>.dirty\<close> before \<open>.nyc\<close>, with instrumentation off, the load removes \<open>.dirty\<close> but
  never sees \<open>.nyc\<close>: the marker mismatches the instrumentation state and is still on
  disk after the load.
\<close>

theorem nyc_marker_survives_dirty_marker:
  "readdir example_dirty_first_files example_cache_dir = [''.dirty'', ''.nyc'']
   \<and> NYC example_env = False
   \<and> isFile example_dirty_first_files (example_cache_dir @ [''.nyc''])
   \<and> fst (Package_new example_env (example_state example_dirty_first_files)
             [''app''] (JStr ''*'') JUndefined) = Inr 0
   \<and> files (snd (Package_new example_env (example_state example_dirty_first_files)
                    [''app''] (JStr ''*'') JUndefined))
       = [(example_cache_dir @ [''.nyc''], File [])]
   \<and> isFile (files (snd (Package_new example_env (example_state example_dirty_first_files)
                            [''app''] (JStr ''*'') JUndefined)))
            (example_cache_dir @ [''.nyc''])"
  by (simp add: eval_resolution example_dirty_first_files_def example_cache_dir_def
      example_env_values example_default_record_eval obj_get_def Let_def)

theorem version_mismatch_clears_cache_witness:
  "\<exists>ref s' cache.
     Package_new example_env (example_state example_stale_files) [''app''] (JStr ''*'') JUndefined
       = (Inr ref, s')
   \<and> pkg_cachePath (heap s' ! ref) = Some example_cache_dir
   \<and> dir_reg s' (Some example_cache_dir) = Some cache
   \<and> compile_index cache = Some [] \<and> buffer cache = Some [] \<and> cmap cache = JObj []
   \<and> (\<forall>name. cache_get cache name = JUndefined)"
proof -
  obtain opts where o: "createOptions example_env JUndefined = Inr opts"
    and c: "cachePath_of [''app''] opts = Some example_cache_dir"
    using example_default_options by blast
  have f: "dir_reg (example_state example_stale_files) (Some example_cache_dir) = None"
    by (simp add: example_state_def)
  have l: "readdir (files (example_state example_stale_files)) example_cache_dir =
             [''0123abcd-old.js'', ''.data.blob'', ''.data.json'']"
    by (simp add: readdir_def example_state_def example_stale_files_def example_cache_dir_def)
  have d: "''.data.json'' \<in> set (readdir (files (example_state example_stale_files)) example_cache_dir)"
    unfolding l by simp
  have j: "readJSON example_env (files (example_state example_stale_files))
             (example_cache_dir @ [''.data.json''])
           = JObj [(''version'', JStr ''2.0.0''), (''map'', JObj [])]"
    by (simp add: readJSON_def readFile_def example_state_def example_stale_files_def
        example_cache_dir_def example_env_def)
  have r1: "readJSON example_env (files (example_state example_stale_files))
             (example_cache_dir @ [''.data.json'']) \<noteq> JNull"
    and r2: "readJSON example_env (files (example_state example_stale_files))
             (example_cache_dir @ [''.data.json'']) \<noteq> JUndefined"
    and v: "js_prop (readJSON example_env (files (example_state example_stale_files))
             (example_cache_dir @ [''.data.json''])) ''version'' \<noteq> JStr (PKG_VERSION example_env)"
    unfolding j by (simp_all add: obj_get_def example_env_def)
  show ?thesis
    using version_mismatch_clears_cache[OF o c f d r1 r2 v, of "JStr ''*''"] .
qed

section \<open>Properties of the resolution\<close>

lemma createOptions_undefined:
  "\<exists>opts. createOptions w JUndefined = Inr opts \<and> obj_get opts ''cache'' = JBool True"
  by (simp add: createOptions_def Reflect_has_def defaultOptions_def object_prototype_names_def
      assign_member_def obj_get_def autoOptions_mode_def autoOptions_cjs_def createCJS_def
      defaultCJS_def normalize_mainFields_def normalize_mode_def coerce_flags_def Let_def)

lemma Package_new_result:
  assumes "Package_new w s dirPath rng options = (Inr p, s')"
  shows "p = length (heap s)" and "length (heap s') = Suc (length (heap s))"
    and "pkg_range (heap s' ! p) = rng" and "pkg_dirPath (heap s' ! p) = dirPath"
    and "memo s' = memo s" and "parseOnly s' = parseOnly s" and "parsing s' = parsing s"
    and "default_pkg s' = default_pkg s"
  using assms unfolding Package_new_def Let_def
  by (auto split: sum.splits option.splits prod.splits)

lemma Package_new_error:
  assumes "Package_new w s dirPath rng options = (Inl e, s')"
  shows "heap s' = heap s" and "memo s' = memo s"
  using assms unfolding Package_new_def Let_def
  by (auto split: sum.splits option.splits prod.splits)

lemma map_of_babel_sweep:
  "(\<forall>name. q \<noteq> b @ [name]) \<Longrightarrow>
   map_of (fold (\<lambda>cacheName fs'. if extname cacheName = ''.json''
                                then removeFile fs' (b @ [cacheName])
                                else fs') ns fs0) q = map_of fs0 q"
proof (induction ns arbitrary: fs0)
  case Nil
  then show ?case by simp
next
  case (Cons a ns)
  have q: "q \<noteq> b @ [a]" using Cons.prems by blast
  show ?case
  proof (cases "extname a = ''.json''")
    case True
    then have "map_of (fold (\<lambda>cacheName fs'. if extname cacheName = ''.json''
                                then removeFile fs' (b @ [cacheName])
                                else fs') (a # ns) fs0) q =
               map_of (removeFile fs0 (b @ [a])) q"
      using Cons.IH[OF Cons.prems] by simp
    then show ?thesis using q by (simp add: map_of_removeFile_other)
  next
    case False
    then show ?thesis using Cons.IH[OF Cons.prems] by simp
  qed
qed

lemma map_of_clearBabelCache:
  "(\<forall>name. q \<noteq> resolve cPath ''../@babel/register'' @ [name]) \<Longrightarrow>
   map_of (clearBabelCache fs cPath) q = map_of fs q"
  unfolding clearBabelCache_def Let_def by (rule map_of_babel_sweep)

lemma load_cache_files:
  assumes lc: "load_cache w fs cp = Inr (cache, fs')"
    and q: "q \<noteq> cp @ [''.dirty'']" "q \<noteq> cp @ [''.nyc'']"
           "\<forall>name. q \<noteq> resolve cp ''../@babel/register'' @ [name]"
  shows "map_of fs' q = map_of fs q"
proof -
  let ?sc = "scan_names (readdir fs cp) scan_init"
  let ?fs1 = "if hasDirtyMarker ?sc then removeFile fs (cp @ [''.dirty'']) else fs"
  let ?fs2 = "if \<not> NYC w \<and> hasNycMarker ?sc then removeFile ?fs1 (cp @ [''.nyc'']) else ?fs1"
  let ?j = "readJSON w fs (cp @ [''.data.json''])"
  have fs2: "map_of ?fs2 q = map_of fs q"
    using q(1,2) by (simp add: map_of_removeFile_other)
  consider (inv) "hasDirtyMarker ?sc \<or> NYC w \<noteq> hasNycMarker ?sc"
    | (nomap) "\<not> hasDirtyMarker ?sc" "NYC w = hasNycMarker ?sc" "\<not> hasMap ?sc"
    | (bad) "\<not> hasDirtyMarker ?sc" "NYC w = hasNycMarker ?sc" "hasMap ?sc" "?j = JNull \<or> ?j = JUndefined"
    | (stale) "\<not> hasDirtyMarker ?sc" "NYC w = hasNycMarker ?sc" "hasMap ?sc"
        "?j \<noteq> JNull" "?j \<noteq> JUndefined" "js_prop ?j ''version'' \<noteq> JStr (PKG_VERSION w)"
    | (valid) "\<not> hasDirtyMarker ?sc" "NYC w = hasNycMarker ?sc" "hasMap ?sc"
        "?j \<noteq> JNull" "?j \<noteq> JUndefined" "js_prop ?j ''version'' = JStr (PKG_VERSION w)"
    by blast
  then show ?thesis
  proof cases
    case inv
    from load_cache_cases(1)[OF inv] lc have "fs' = clearBabelCache ?fs2 cp" by simp
    then show ?thesis using fs2 q(3) by (simp add: map_of_clearBabelCache)
  next
    case nomap
    from load_cache_cases(5)[OF nomap] lc show ?thesis by simp
  next
    case bad
    from load_cache_cases(2)[OF bad] lc show ?thesis by simp
  next
    case stale
    from load_cache_cases(3)[OF stale] lc have "fs' = clearBabelCache fs cp" by simp
    then show ?thesis using q(3) by (simp add: map_of_clearBabelCache)
  next
    case valid
    from load_cache_cases(4)[OF valid] lc show ?thesis by simp
  qed
qed

lemma resolve_babel:
  "resolve (d @ [a, b, c]) ''../@babel/register'' = d @ [a, b, ''@babel'', ''register'']"
  by (simp add: resolve_def butlast_append)

lemma Package_new_default_files:
  assumes "Package_new w s d rng JUndefined = (x, s')"
  shows "map_of (files s') (d @ [name]) = map_of (files s) (d @ [name])"
proof -
  obtain opts where o: "createOptions w JUndefined = Inr opts"
    and c: "obj_get opts ''cache'' = JBool True"
    using createOptions_undefined by blast
  let ?cp = "d @ [''node_modules'', ''.cache'', ''esm'']"
  have cp: "cachePath_of d opts = Some ?cp" by (simp add: cachePath_of_def c)
  show ?thesis
  proof (cases "dir_reg s (Some ?cp)")
    case (Some cache)
    then have "files s' = files s"
      using assms unfolding Package_new_def Let_def by (auto simp: o cp)
    then show ?thesis by simp
  next
    case None
    note fresh = Package_new_fresh[OF o cp None, of rng]
    show ?thesis
    proof (cases "load_cache w (files s) ?cp")
      case (Inl e)
      then have "files s' = files s" using assms unfolding fresh by auto
      then show ?thesis by simp
    next
      case (Inr r)
      obtain cache fs' where r: "r = (cache, fs')" by (cases r)
      have f: "files s' = fs'" using assms unfolding fresh Inr r by auto
      have "map_of fs' (d @ [name]) = map_of (files s) (d @ [name])"
        using Inr[unfolded r]
        by (rule load_cache_files) (simp_all add: resolve_babel)
      then show ?thesis by (simp add: f)
    qed
  qed
qed

lemma readInfo_options_props:
  assumes "readInfo_options w s d = Inr (s1, optionsFound, options, pkg)"
  shows "map_of (files s1) (d @ [name]) = map_of (files s) (d @ [name])"
    and "pkg = None \<Longrightarrow> s1 = s"
    and "pkg = Some p \<Longrightarrow> p < length (heap s1) \<and> optionsFound"
    and "optionsFound \<longleftrightarrow>
           readFile (files s) (d @ [''.esmrc'']) \<noteq> None
           \<or> findPath (files s) ''.esmrc'' d searchExts \<noteq> None"
proof -
  let ?content = "readFile (files s) (d @ [''.esmrc''])"
  let ?found = "findPath (files s) ''.esmrc'' d searchExts"
  consider (rc) "?content \<noteq> None"
    | (absent) "?content = None" "?found = None"
    | (jsonform) optPath where "?content = None" "?found = Some optPath"
        "extname (basename optPath) = ''.json''"
    | (scriptform) optPath where "?content = None" "?found = Some optPath"
        "extname (basename optPath) \<noteq> ''.json''"
    by (cases ?found) auto
  then have "map_of (files s1) (d @ [name]) = map_of (files s) (d @ [name])
      \<and> (pkg = None \<longrightarrow> s1 = s)
      \<and> (pkg = Some p \<longrightarrow> p < length (heap s1) \<and> optionsFound)
      \<and> (optionsFound \<longleftrightarrow> ?content \<noteq> None \<or> ?found \<noteq> None)"
  proof cases
    case rc
    then show ?thesis using assms unfolding readInfo_options_def Let_def by auto
  next
    case absent
    then show ?thesis using assms unfolding readInfo_options_def Let_def by auto
  next
    case jsonform
    then show ?thesis using assms unfolding readInfo_options_def Let_def by auto
  next
    case scriptform
    let ?s0 = "s\<lparr>parseOnly := False, parsing := False\<rparr>"
    obtain x s2 where pn: "Package_new w ?s0 d (RANGE_ALL w) JUndefined = (x, s2)"
      by (cases "Package_new w ?s0 d (RANGE_ALL w) JUndefined")
    from Package_new_default_files[OF pn, of name]
    have f2: "map_of (files s2) (d @ [name]) = map_of (files s) (d @ [name])" by simp
    show ?thesis
    proof (cases x)
      case (Inl e)
      then show ?thesis
        using assms scriptform pn unfolding readInfo_options_def Let_def by simp
    next
      case (Inr q)
      note res = Package_new_result[OF pn[unfolded Inr]]
      have len: "q < length (heap s2)" using res(1,2) by simp
      show ?thesis
        using assms scriptform pn Inr f2 len unfolding readInfo_options_def Let_def
        by (auto split: sum.splits)
    qed
  qed
  then show "map_of (files s1) (d @ [name]) = map_of (files s) (d @ [name])"
    and "pkg = None \<Longrightarrow> s1 = s"
    and "pkg = Some p \<Longrightarrow> p < length (heap s1) \<and> optionsFound"
    and "optionsFound \<longleftrightarrow> ?content \<noteq> None \<or> ?found \<noteq> None"
    by blast+
qed

lemma readInfo_finish_dev:
  assumes parse: "parseJSON w txt = json"
    and deps: "getRange w json ''dependencies'' = JNull"
    and peer: "getRange w json ''peerDependencies'' = JNull"
    and act: "optionsFound0 \<or> truthy (getRange w json ''devDependencies'')"
  shows "readInfo_finish w s d False optionsFound0 options0 pkg None (JStr txt) =
     (case pkg of
        Some p \<Rightarrow> (Inr (Some p), s\<lparr>heap := (heap s)[p := (heap s ! p)\<lparr>pkg_range := RANGE_ALL w\<rparr>]\<rparr>)
      | None \<Rightarrow>
          (case Package_new w s d (RANGE_ALL w)
                  (if optionsFound0
                   then (if options0 = JBool True then OPTIONS w else options0)
                   else (if has json ''esm'' \<and> js_prop json ''esm'' \<noteq> JBool True
                         then js_prop json ''esm'' else OPTIONS w)) of
             (Inl e, s') \<Rightarrow> (Inl e, s')
           | (Inr p, s') \<Rightarrow> (Inr (Some p), s')))"
proof (cases optionsFound0)
  case True
  then show ?thesis
    unfolding readInfo_finish_def Let_def parse_text_def
    by (cases pkg) (simp_all add: parse deps peer js_or_def)
next
  case False
  with act have dev: "truthy (getRange w json ''devDependencies'')" by simp
  show ?thesis
    unfolding readInfo_finish_def Let_def parse_text_def
    using False dev by (cases pkg) (simp_all add: parse deps peer js_or_def)
qed

lemma getInfo_miss:
  assumes "memo s d = None" "basename d \<noteq> ''node_modules''"
    and "readInfo (Suc n) w s d False = Some (out, s1)"
    and "out \<noteq> Inr None"
  shows "getInfo (Suc (Suc n)) w s d False =
     (case out of Inl e \<Rightarrow> Some (Inl e, s1)
      | Inr pkg \<Rightarrow> Some (Inr pkg, s1\<lparr>memo := (memo s1)(d \<mapsto> pkg)\<rparr>))"
  using assms by (cases out) (auto simp del: readInfo.simps)

lemma readInfo_options_script:
  assumes rc: "readFile (files s) (d @ [''.esmrc'']) = None"
    and fp: "findPath (files s) ''.esmrc'' d searchExts = Some optPath"
    and ext: "extname (basename optPath) \<noteq> ''.json''"
  shows "readInfo_options w s d =
     (case Package_new w (s\<lparr>parseOnly := False, parsing := False\<rparr>) d (RANGE_ALL w) JUndefined of
        (Inl e, s2) \<Rightarrow> Inl (e, s2)
      | (Inr p, s2) \<Rightarrow>
          (case (case loadESM w (files s2) optPath of
                   Inl e \<Rightarrow> Inl e
                 | Inr exports \<Rightarrow> createOptions w exports) of
             Inl e \<Rightarrow> Inl (e, s2\<lparr>memo := (memo s2)(d \<mapsto> Some p),
                                 parseOnly := parseOnly s, parsing := parsing s\<rparr>)
           | Inr opts \<Rightarrow>
               Inr (s2\<lparr>memo := (memo s2)(d \<mapsto> Some p),
                        heap := (heap s2)[p := (heap s2 ! p)\<lparr>pkg_options := opts\<rparr>],
                        parseOnly := parseOnly s, parsing := parsing s\<rparr>,
                    True, JNull, Some p)))"
  unfolding readInfo_options_def Let_def
  by (simp add: rc fp ext split: prod.splits sum.splits)

lemma load_cache_raises: "load_cache w fs cp = Inl e \<Longrightarrow> e = TypeError"
  unfolding load_cache_def Let_def by (simp split: if_splits)

lemma Package_new_raises:
  assumes "Package_new w s dirPath rng options = (Inl e, s')"
  shows "createOptions w options = Inl e \<or> e = TypeError"
proof (cases "createOptions w options")
  case (Inl e')
  with assms show ?thesis unfolding Package_new_def by simp
next
  case (Inr opts)
  show ?thesis
  proof (cases "cachePath_of dirPath opts")
    case None
    with assms Inr show ?thesis
      unfolding Package_new_def Let_def by (simp split: option.splits)
  next
    case (Some cp)
    show ?thesis
    proof (cases "dir_reg s (Some cp)")
      case (Some cache)
      with assms Inr \<open>cachePath_of dirPath opts = Some cp\<close> show ?thesis
        unfolding Package_new_def Let_def by simp
    next
      case None
      from assms[unfolded Package_new_fresh[OF Inr Some None]]
      obtain e' where "load_cache w (files s) cp = Inl e'" "e' = e"
        by (cases "load_cache w (files s) cp") (auto split: prod.splits)
      then show ?thesis using load_cache_raises by blast
    qed
  qed
qed

text \<open>
  C1 (amended). Let \<open>d\<close> be a directory that is not named \<open>node_modules\<close> and has no
  memoized resolution, and let its manifest declare the tool under \<open>devDependencies\<close>
  only, with a valid range (no range under \<open>dependencies\<close> or \<open>peerDependencies\<close>).
  Then \<open>getInfo d false\<close> returns, and it never returns \<open>null\<close>, with or without an
  options file: it returns a package whose range is \<open>RANGE_ALL\<close>, memoized for \<open>d\<close>,
  or it raises, and what it raises is an error of the validation of options, the
  \<open>TypeError\<close> of the cache load, or an error of the load of an options script. The
  outcome is, without an options file, that of \<open>new Package(d, RANGE_ALL, options)\<close> with
  the \<open>esm\<close> field of the manifest (or the global options); with \<open>.esmrc\<close> or
  \<open>.esmrc.json\<close>, that of the same construction with the options read in that file
  (the global options when the file holds \<open>true\<close>); with an options script, that of
  \<open>new Package(d, RANGE_ALL)\<close> followed by the load of the script and the validation
  of its exports.
\<close>

theorem dev_only_resolution:
  assumes memo: "memo s d = None"
    and nm: "basename d \<noteq> ''node_modules''"
    and man: "readFileFast (files s) (d @ [''package.json'']) = Some txt"
    and parse: "parseJSON w txt = json"
    and deps: "getRange w json ''dependencies'' = JNull"
    and peer: "getRange w json ''peerDependencies'' = JNull"
    and dev: "truthy (getRange w json ''devDependencies'')"
  shows "(\<exists>out s'. getInfo (Suc (Suc n)) w s d False = Some (out, s')
            \<and> (case out of
                  Inl e \<Rightarrow> (\<exists>v. createOptions w v = Inl e) \<or> e = TypeError
                            \<or> (\<exists>fs p. loadESM w fs p = Inl e)
                | Inr None \<Rightarrow> False
                | Inr (Some p) \<Rightarrow> p < length (heap s') \<and> pkg_range (heap s' ! p) = RANGE_ALL w
                                    \<and> memo s' d = Some (Some p)))
       \<and> (readFile (files s) (d @ [''.esmrc'']) = None \<and>
          findPath (files s) ''.esmrc'' d searchExts = None \<longrightarrow>
            getInfo (Suc (Suc n)) w s d False =
              (case Package_new w s d (RANGE_ALL w)
                      (if has json ''esm'' \<and> js_prop json ''esm'' \<noteq> JBool True
                       then js_prop json ''esm'' else OPTIONS w) of
                 (Inl e, s') \<Rightarrow> Some (Inl e, s')
               | (Inr p, s') \<Rightarrow> Some (Inr (Some p), s'\<lparr>memo := (memo s')(d \<mapsto> Some p)\<rparr>)))
       \<and> (\<forall>otxt. readFile (files s) (d @ [''.esmrc'']) = Some otxt \<longrightarrow>
            getInfo (Suc (Suc n)) w s d False =
              (case Package_new w s d (RANGE_ALL w)
                      (if parseJSON6 w otxt = JBool True then OPTIONS w else parseJSON6 w otxt) of
                 (Inl e, s') \<Rightarrow> Some (Inl e, s')
               | (Inr p, s') \<Rightarrow> Some (Inr (Some p), s'\<lparr>memo := (memo s')(d \<mapsto> Some p)\<rparr>)))
       \<and> (\<forall>optPath. readFile (files s) (d @ [''.esmrc'']) = None \<and>
            findPath (files s) ''.esmrc'' d searchExts = Some optPath \<and>
            extname (basename optPath) = ''.json'' \<longrightarrow>
            getInfo (Suc (Suc n)) w s d False =
              (case Package_new w s d (RANGE_ALL w)
                      (if readJSON6 w (files s) optPath = JBool True then OPTIONS w
                       else readJSON6 w (files s) optPath) of
                 (Inl e, s') \<Rightarrow> Some (Inl e, s')
               | (Inr p, s') \<Rightarrow> Some (Inr (Some p), s'\<lparr>memo := (memo s')(d \<mapsto> Some p)\<rparr>)))
       \<and> (\<forall>optPath. readFile (files s) (d @ [''.esmrc'']) = None \<and>
            findPath (files s) ''.esmrc'' d searchExts = Some optPath \<and>
            extname (basename optPath) \<noteq> ''.json'' \<longrightarrow>
            getInfo (Suc (Suc n)) w s d False =
              (case Package_new w (s\<lparr>parseOnly := False, parsing := False\<rparr>) d (RANGE_ALL w)
                      JUndefined of
                 (Inl e, s2) \<Rightarrow> Some (Inl e, s2)
               | (Inr p, s2) \<Rightarrow>
                   (case (case loadESM w (files s2) optPath of
                            Inl e \<Rightarrow> Inl e
                          | Inr exports \<Rightarrow> createOptions w exports) of
                      Inl e \<Rightarrow>
                        Some (Inl e, s2\<lparr>memo := (memo s2)(d \<mapsto> Some p),
                                        parseOnly := parseOnly s, parsing := parsing s\<rparr>)
                    | Inr opts \<Rightarrow>
                        Some (Inr (Some p),
                              s2\<lparr>memo := (memo s2)(d \<mapsto> Some p),
                                 heap := (heap s2)[p := (heap s2 ! p)\<lparr>pkg_options := opts,
                                                                     pkg_range := RANGE_ALL w\<rparr>],
                                 parseOnly := parseOnly s, parsing := parsing s\<rparr>))))"
proof -
  let ?good = "\<lambda>out s'. case out of
                  Inl e \<Rightarrow> (\<exists>v. createOptions w v = Inl e) \<or> e = TypeError
                            \<or> (\<exists>fs p. loadESM w fs p = Inl e)
                | Inr None \<Rightarrow> False
                | Inr (Some p) \<Rightarrow> p < length (heap s') \<and> pkg_range (heap s' ! p) = RANGE_ALL w
                                    \<and> memo s' d = Some (Some p)"
  let ?G = "getInfo (Suc (Suc n)) w s d False"
  let ?content = "readFile (files s) (d @ [''.esmrc''])"
  let ?found = "findPath (files s) ''.esmrc'' d searchExts"
  have wrap: "?G =
     (case out of Inl e \<Rightarrow> Some (Inl e, s1)
      | Inr pkg \<Rightarrow> Some (Inr pkg, s1\<lparr>memo := (memo s1)(d \<mapsto> pkg)\<rparr>))"
    if "readInfo (Suc n) w s d False = Some (out, s1)" "out \<noteq> Inr None" for out s1
    using memo nm that by (rule getInfo_miss)
  \<comment> \<open>the construction of a package, shared by the forms without a script\<close>
  have build: "?G =
              (case Package_new w s d (RANGE_ALL w) opts of
                 (Inl e, s') \<Rightarrow> Some (Inl e, s')
               | (Inr p, s') \<Rightarrow> Some (Inr (Some p), s'\<lparr>memo := (memo s')(d \<mapsto> Some p)\<rparr>))
            \<and> (\<exists>out s'. ?G = Some (out, s') \<and> ?good out s')"
    if ri: "readInfo (Suc n) w s d False =
           Some (case Package_new w s d (RANGE_ALL w) opts of
                   (Inl e, s') \<Rightarrow> (Inl e, s') | (Inr p, s') \<Rightarrow> (Inr (Some p), s'))" for opts
  proof -
    obtain x s2 where pn: "Package_new w s d (RANGE_ALL w) opts = (x, s2)"
      by (cases "Package_new w s d (RANGE_ALL w) opts")
    show ?thesis
    proof (cases x)
      case (Inl e)
      have k: "(\<exists>v. createOptions w v = Inl e) \<or> e = TypeError"
        using Package_new_raises[OF pn[unfolded Inl]] by blast
      have "readInfo (Suc n) w s d False = Some (Inl e, s2)" unfolding ri pn Inl by simp
      from wrap[OF this] k show ?thesis
        by (auto simp add: pn Inl simp del: getInfo.simps readInfo.simps)
    next
      case (Inr p)
      note res = Package_new_result[OF pn[unfolded Inr]]
      have "readInfo (Suc n) w s d False = Some (Inr (Some p), s2)" unfolding ri pn Inr by simp
      from wrap[OF this] res(1,2,3) show ?thesis
        by (simp add: pn Inr del: getInfo.simps readInfo.simps)
    qed
  qed
  have plain: "readInfo (Suc n) w s d False =
           Some (case Package_new w s d (RANGE_ALL w)
                   (if optionsFound
                    then (if options = JBool True then OPTIONS w else options)
                    else (if has json ''esm'' \<and> js_prop json ''esm'' \<noteq> JBool True
                          then js_prop json ''esm'' else OPTIONS w)) of
                   (Inl e, s') \<Rightarrow> (Inl e, s') | (Inr p, s') \<Rightarrow> (Inr (Some p), s'))"
    if "readInfo_options w s d = Inr (s, optionsFound, options, None)" for optionsFound options
    using that man readInfo_finish_dev[OF parse deps peer, of optionsFound s d options None] dev
    by simp
  \<comment> \<open>the four forms of the options\<close>
  have absent: "?G =
              (case Package_new w s d (RANGE_ALL w)
                      (if has json ''esm'' \<and> js_prop json ''esm'' \<noteq> JBool True
                       then js_prop json ''esm'' else OPTIONS w) of
                 (Inl e, s') \<Rightarrow> Some (Inl e, s')
               | (Inr p, s') \<Rightarrow> Some (Inr (Some p), s'\<lparr>memo := (memo s')(d \<mapsto> Some p)\<rparr>))
            \<and> (\<exists>out s'. ?G = Some (out, s') \<and> ?good out s')"
    if "?content = None" "?found = None"
  proof -
    have "readInfo_options w s d = Inr (s, False, JNull, None)"
      using that by (simp add: readInfo_options_def)
    from plain[OF this]
    have "readInfo (Suc n) w s d False =
           Some (case Package_new w s d (RANGE_ALL w)
                      (if has json ''esm'' \<and> js_prop json ''esm'' \<noteq> JBool True
                       then js_prop json ''esm'' else OPTIONS w) of
                   (Inl e, s') \<Rightarrow> (Inl e, s') | (Inr p, s') \<Rightarrow> (Inr (Some p), s'))"
      by (simp del: getInfo.simps readInfo.simps)
    then show ?thesis by (rule build)
  qed
  have rcfile: "?G =
              (case Package_new w s d (RANGE_ALL w)
                      (if parseJSON6 w otxt = JBool True then OPTIONS w else parseJSON6 w otxt) of
                 (Inl e, s') \<Rightarrow> Some (Inl e, s')
               | (Inr p, s') \<Rightarrow> Some (Inr (Some p), s'\<lparr>memo := (memo s')(d \<mapsto> Some p)\<rparr>))
            \<and> (\<exists>out s'. ?G = Some (out, s') \<and> ?good out s')"
    if "?content = Some otxt" for otxt
  proof -
    have "readInfo_options w s d = Inr (s, True, parseJSON6 w otxt, None)"
      using that by (simp add: readInfo_options_def)
    from plain[OF this]
    have "readInfo (Suc n) w s d False =
           Some (case Package_new w s d (RANGE_ALL w)
                      (if parseJSON6 w otxt = JBool True then OPTIONS w else parseJSON6 w otxt) of
                   (Inl e, s') \<Rightarrow> (Inl e, s') | (Inr p, s') \<Rightarrow> (Inr (Some p), s'))"
      by (simp del: getInfo.simps readInfo.simps)
    then show ?thesis by (rule build)
  qed
  have jsonform: "?G =
              (case Package_new w s d (RANGE_ALL w)
                      (if readJSON6 w (files s) optPath = JBool True then OPTIONS w
                       else readJSON6 w (files s) optPath) of
                 (Inl e, s') \<Rightarrow> Some (Inl e, s')
               | (Inr p, s') \<Rightarrow> Some (Inr (Some p), s'\<lparr>memo := (memo s')(d \<mapsto> Some p)\<rparr>))
            \<and> (\<exists>out s'. ?G = Some (out, s') \<and> ?good out s')"
    if "?content = None" "?found = Some optPath" "extname (basename optPath) = ''.json''"
    for optPath
  proof -
    have "readInfo_options w s d = Inr (s, True, readJSON6 w (files s) optPath, None)"
      using that by (simp add: readInfo_options_def)
    from plain[OF this]
    have "readInfo (Suc n) w s d False =
           Some (case Package_new w s d (RANGE_ALL w)
                      (if readJSON6 w (files s) optPath = JBool True then OPTIONS w
                       else readJSON6 w (files s) optPath) of
                   (Inl e, s') \<Rightarrow> (Inl e, s') | (Inr p, s') \<Rightarrow> (Inr (Some p), s'))"
      by (simp del: getInfo.simps readInfo.simps)
    then show ?thesis by (rule build)
  qed
  have scriptform: "?G =
              (case Package_new w (s\<lparr>parseOnly := False, parsing := False\<rparr>) d (RANGE_ALL w)
                      JUndefined of
                 (Inl e, s2) \<Rightarrow> Some (Inl e, s2)
               | (Inr p, s2) \<Rightarrow>
                   (case (case loadESM w (files s2) optPath of
                            Inl e \<Rightarrow> Inl e
                          | Inr exports \<Rightarrow> createOptions w exports) of
                      Inl e \<Rightarrow>
                        Some (Inl e, s2\<lparr>memo := (memo s2)(d \<mapsto> Some p),
                                        parseOnly := parseOnly s, parsing := parsing s\<rparr>)
                    | Inr opts \<Rightarrow>
                        Some (Inr (Some p),
                              s2\<lparr>memo := (memo s2)(d \<mapsto> Some p),
                                 heap := (heap s2)[p := (heap s2 ! p)\<lparr>pkg_options := opts,
                                                                     pkg_range := RANGE_ALL w\<rparr>],
                                 parseOnly := parseOnly s, parsing := parsing s\<rparr>)))
            \<and> (\<exists>out s'. ?G = Some (out, s') \<and> ?good out s')"
    if sf: "?content = None" "?found = Some optPath" "extname (basename optPath) \<noteq> ''.json''"
    for optPath
  proof -
    let ?s0 = "s\<lparr>parseOnly := False, parsing := False\<rparr>"
    note ro = readInfo_options_script[OF sf, of w]
    obtain x s2 where pn: "Package_new w ?s0 d (RANGE_ALL w) JUndefined = (x, s2)"
      by (cases "Package_new w ?s0 d (RANGE_ALL w) JUndefined")
    show ?thesis
    proof (cases x)
      case (Inl e)
      have k: "(\<exists>v. createOptions w v = Inl e) \<or> e = TypeError"
        using Package_new_raises[OF pn[unfolded Inl]] by blast
      have "readInfo_options w s d = Inl (e, s2)" unfolding ro pn Inl by simp
      then have "readInfo (Suc n) w s d False = Some (Inl e, s2)" by simp
      from wrap[OF this] k show ?thesis
        by (auto simp add: pn Inl simp del: getInfo.simps readInfo.simps)
    next
      case (Inr p)
      note res = Package_new_result[OF pn[unfolded Inr]]
      have len: "p < length (heap s2)" using res(1,2) by simp
      let ?L = "case loadESM w (files s2) optPath of
                  Inl e \<Rightarrow> Inl e | Inr exports \<Rightarrow> createOptions w exports"
      show ?thesis
      proof (cases ?L)
        case (Inl e)
        let ?s3 = "s2\<lparr>memo := (memo s2)(d \<mapsto> Some p),
                       parseOnly := parseOnly s, parsing := parsing s\<rparr>"
        have k: "(\<exists>v. createOptions w v = Inl e) \<or> (\<exists>fs p. loadESM w fs p = Inl e)"
        proof (cases "loadESM w (files s2) optPath")
          case l: (Inl e')
          with Inl have "e' = e" by simp
          with l show ?thesis by blast
        next
          case r: (Inr exports)
          with Inl have "createOptions w exports = Inl e" by simp
          then show ?thesis by blast
        qed
        have "readInfo_options w s d = Inl (e, ?s3)" unfolding ro pn \<open>x = Inr p\<close> using Inl by simp
        then have "readInfo (Suc n) w s d False = Some (Inl e, ?s3)" by simp
        from wrap[OF this] k show ?thesis using Inl
          by (auto simp add: pn \<open>x = Inr p\<close> simp del: getInfo.simps readInfo.simps)
      next
        case r: (Inr opts)
        let ?s4 = "s2\<lparr>memo := (memo s2)(d \<mapsto> Some p),
                       heap := (heap s2)[p := (heap s2 ! p)\<lparr>pkg_options := opts\<rparr>],
                       parseOnly := parseOnly s, parsing := parsing s\<rparr>"
        have o: "readInfo_options w s d = Inr (?s4, True, JNull, Some p)"
          unfolding ro pn \<open>x = Inr p\<close> using r by simp
        have "map_of (files s2) (d @ [''package.json'']) = map_of (files ?s0) (d @ [''package.json''])"
          using pn by (rule Package_new_default_files)
        then have man1: "readFileFast (files ?s4) (d @ [''package.json'']) = Some txt"
          using man by (simp add: readFileFast_def)
        let ?s5 = "?s4\<lparr>heap := (heap ?s4)[p := (heap ?s4 ! p)\<lparr>pkg_range := RANGE_ALL w\<rparr>]\<rparr>"
        have "readInfo (Suc n) w s d False = Some (Inr (Some p), ?s5)"
          using man1 readInfo_finish_dev[OF parse deps peer, of True ?s4 d JNull "Some p"]
          by (simp add: o)
        from wrap[OF this] len show ?thesis using r
          by (simp add: pn \<open>x = Inr p\<close> del: getInfo.simps readInfo.simps)
      qed
    qed
  qed
  have first: "\<exists>out s'. ?G = Some (out, s') \<and> ?good out s'"
  proof (cases ?content)
    case (Some otxt)
    from rcfile[OF this] show ?thesis by blast
  next
    case None
    show ?thesis
    proof (cases ?found)
      case n: None
      from absent[OF None n] show ?thesis by blast
    next
      case (Some optPath)
      show ?thesis
      proof (cases "extname (basename optPath) = ''.json''")
        case True
        from jsonform[OF None Some True] show ?thesis by blast
      next
        case False
        from scriptform[OF None Some False] show ?thesis by blast
      qed
    qed
  qed
  show ?thesis
  proof (intro conjI allI impI)
    show "\<exists>out s'. ?G = Some (out, s') \<and> ?good out s'" by (rule first)
  next
    assume "?content = None \<and> ?found = None"
    then show "?G =
              (case Package_new w s d (RANGE_ALL w)
                      (if has json ''esm'' \<and> js_prop json ''esm'' \<noteq> JBool True
                       then js_prop json ''esm'' else OPTIONS w) of
                 (Inl e, s') \<Rightarrow> Some (Inl e, s')
               | (Inr p, s') \<Rightarrow> Some (Inr (Some p), s'\<lparr>memo := (memo s')(d \<mapsto> Some p)\<rparr>))"
      using absent by blast
  next
    fix otxt
    assume "?content = Some otxt"
    then show "?G =
              (case Package_new w s d (RANGE_ALL w)
                      (if parseJSON6 w otxt = JBool True then OPTIONS w else parseJSON6 w otxt) of
                 (Inl e, s') \<Rightarrow> Some (Inl e, s')
               | (Inr p, s') \<Rightarrow> Some (Inr (Some p), s'\<lparr>memo := (memo s')(d \<mapsto> Some p)\<rparr>))"
      using rcfile by blast
  next
    fix optPath
    assume a: "?content = None \<and> ?found = Some optPath \<and> extname (basename optPath) = ''.json''"
    from a have a1: "?content = None" and a2: "?found = Some optPath"
      and a3: "extname (basename optPath) = ''.json''" by simp_all
    from jsonform[OF a1 a2 a3]
    show "?G =
              (case Package_new w s d (RANGE_ALL w)
                      (if readJSON6 w (files s) optPath = JBool True then OPTIONS w
                       else readJSON6 w (files s) optPath) of
                 (Inl e, s') \<Rightarrow> Some (Inl e, s')
               | (Inr p, s') \<Rightarrow> Some (Inr (Some p), s'\<lparr>memo := (memo s')(d \<mapsto> Some p)\<rparr>))"
      by (rule conjunct1)
  next
    fix optPath
    assume a: "?content = None \<and> ?found = Some optPath \<and> extname (basename optPath) \<noteq> ''.json''"
    from a have a1: "?content = None" and a2: "?found = Some optPath"
      and a3: "extname (basename optPath) \<noteq> ''.json''" by simp_all
    from scriptform[OF a1 a2 a3]
    show "?G =
              (case Package_new w (s\<lparr>parseOnly := False, parsing := False\<rparr>) d (RANGE_ALL w)
                      JUndefined of
                 (Inl e, s2) \<Rightarrow> Some (Inl e, s2)
               | (Inr p, s2) \<Rightarrow>
                   (case (case loadESM w (files s2) optPath of
                            Inl e \<Rightarrow> Inl e
                          | Inr exports \<Rightarrow> createOptions w exports) of
                      Inl e \<Rightarrow>
                        Some (Inl e, s2\<lparr>memo := (memo s2)(d \<mapsto> Some p),
                                        parseOnly := parseOnly s, parsing := parsing s\<rparr>)
                    | Inr opts \<Rightarrow>
                        Some (Inr (Some p),
                              s2\<lparr>memo := (memo s2)(d \<mapsto> Some p),
                                 heap := (heap s2)[p := (heap s2 ! p)\<lparr>pkg_options := opts,
                                                                     pkg_range := RANGE_ALL w\<rparr>],
                                 parseOnly := parseOnly s, parsing := parsing s\<rparr>)))"
      by (rule conjunct1)
  qed
qed

lemma example_dev_resolution:
  "getInfo 2 example_env (example_state example_dev_files) [''app''] False =
     Some (Inr (Some 0), example_resolved_state)"
  unfolding numeral_2_eq_2 example_resolved_state_def
  by (simp add: eval_resolution example_dev_files_def example_env_values obj_get_def Let_def
      example_default_record_def[symmetric] example_default_record_eval)

theorem dev_only_resolution_witness:
  "(\<exists>out s'. getInfo (Suc (Suc 0)) example_env (example_state example_dev_files) [''app''] False
                = Some (out, s')
            \<and> (case out of
                  Inl e \<Rightarrow> (\<exists>v. createOptions example_env v = Inl e) \<or> e = TypeError
                            \<or> (\<exists>fs p. loadESM example_env fs p = Inl e)
                | Inr None \<Rightarrow> False
                | Inr (Some p) \<Rightarrow> p < length (heap s')
                                    \<and> pkg_range (heap s' ! p) = RANGE_ALL example_env
                                    \<and> memo s' [''app''] = Some (Some p)))
   \<and> getInfo (Suc (Suc 0)) example_env (example_state example_dev_files) [''app''] False =
       (case Package_new example_env (example_state example_dev_files) [''app'']
               (RANGE_ALL example_env) (OPTIONS example_env) of
          (Inl e, s') \<Rightarrow> Some (Inl e, s')
        | (Inr p, s') \<Rightarrow> Some (Inr (Some p), s'\<lparr>memo := (memo s')([''app''] \<mapsto> Some p)\<rparr>))
   \<and> getInfo (Suc (Suc 0)) example_env (example_state example_rc_files) [''app''] False =
       (case Package_new example_env (example_state example_rc_files) [''app'']
               (RANGE_ALL example_env) (JObj []) of
          (Inl e, s') \<Rightarrow> Some (Inl e, s')
        | (Inr p, s') \<Rightarrow> Some (Inr (Some p), s'\<lparr>memo := (memo s')([''app''] \<mapsto> Some p)\<rparr>))
   \<and> getInfo (Suc (Suc 0)) example_env (example_state example_rc_json_files) [''app''] False =
       (case Package_new example_env (example_state example_rc_json_files) [''app'']
               (RANGE_ALL example_env) (JObj []) of
          (Inl e, s') \<Rightarrow> Some (Inl e, s')
        | (Inr p, s') \<Rightarrow> Some (Inr (Some p), s'\<lparr>memo := (memo s')([''app''] \<mapsto> Some p)\<rparr>))
   \<and> getInfo (Suc (Suc 0)) example_env (example_state example_rc_script_files) [''app''] False =
       (case Package_new example_env
               ((example_state example_rc_script_files)\<lparr>parseOnly := False, parsing := False\<rparr>)
               [''app''] (RANGE_ALL example_env) JUndefined of
          (Inl e, s2) \<Rightarrow> Some (Inl e, s2)
        | (Inr p, s2) \<Rightarrow>
            Some (Inl (LoadError ''not loaded''),
                  s2\<lparr>memo := (memo s2)([''app''] \<mapsto> Some p),
                     parseOnly := parseOnly (example_state example_rc_script_files),
                     parsing := parsing (example_state example_rc_script_files)\<rparr>))"
proof -
  have hyps: "memo (example_state fs) [''app''] = None" "basename [''app''] \<noteq> ''node_modules''"
    "parseJSON example_env ''{devDependencies:{esm:^3.0.0}}'' = example_manifest"
    "getRange example_env example_manifest ''dependencies'' = JNull"
    "getRange example_env example_manifest ''peerDependencies'' = JNull"
    "truthy (getRange example_env example_manifest ''devDependencies'')" for fs
    by (simp_all add: example_state_def basename_def example_env_values getRange_def
        example_manifest_def obj_get_def)
  have man1: "readFileFast (files (example_state example_dev_files)) ([''app''] @ [''package.json''])
               = Some ''{devDependencies:{esm:^3.0.0}}''"
    and man2: "readFileFast (files (example_state example_rc_files)) ([''app''] @ [''package.json''])
               = Some ''{devDependencies:{esm:^3.0.0}}''"
    and man3: "readFileFast (files (example_state example_rc_json_files))
                 ([''app''] @ [''package.json'']) = Some ''{devDependencies:{esm:^3.0.0}}''"
    and man4: "readFileFast (files (example_state example_rc_script_files))
                 ([''app''] @ [''package.json'']) = Some ''{devDependencies:{esm:^3.0.0}}''"
    by (simp_all add: readFileFast_def example_state_def example_dev_files_def example_rc_files_def
        example_rc_json_files_def example_rc_script_files_def)
  note t1 = dev_only_resolution[OF hyps(1,2) man1 hyps(3-6), of 0]
  note t2 = dev_only_resolution[OF hyps(1,2) man2 hyps(3-6), of 0]
  note t3 = dev_only_resolution[OF hyps(1,2) man3 hyps(3-6), of 0]
  note t4 = dev_only_resolution[OF hyps(1,2) man4 hyps(3-6), of 0]
  have none: "readFile (files (example_state example_dev_files)) ([''app''] @ [''.esmrc'']) = None \<and>
          findPath (files (example_state example_dev_files)) ''.esmrc'' [''app''] searchExts = None"
    by (simp add: readFile_def findPath_def isFile_def searchExts_def example_dev_files_def
        example_state_def)
  have rc: "readFile (files (example_state example_rc_files)) ([''app''] @ [''.esmrc'']) = Some ''{}''"
    by (simp add: readFile_def example_rc_files_def example_state_def)
  have jsn: "readFile (files (example_state example_rc_json_files)) ([''app''] @ [''.esmrc'']) = None \<and>
       findPath (files (example_state example_rc_json_files)) ''.esmrc'' [''app''] searchExts
         = Some [''app'', ''.esmrc.json''] \<and>
       extname (basename [''app'', ''.esmrc.json'']) = ''.json''"
    by (simp add: readFile_def findPath_def isFile_def searchExts_def example_rc_json_files_def
        example_state_def extname_def basename_def)
  have scr: "readFile (files (example_state example_rc_script_files)) ([''app''] @ [''.esmrc'']) = None \<and>
       findPath (files (example_state example_rc_script_files)) ''.esmrc'' [''app''] searchExts
         = Some [''app'', ''.esmrc.js''] \<and>
       extname (basename [''app'', ''.esmrc.js'']) \<noteq> ''.json''"
    by (simp add: readFile_def findPath_def isFile_def searchExts_def example_rc_script_files_def
        example_state_def extname_def basename_def)
  have rj: "readJSON6 example_env (files (example_state example_rc_json_files))
              [''app'', ''.esmrc.json''] = JObj []"
    by (simp add: readJSON6_def readFile_def example_rc_json_files_def example_state_def
        example_env_values)
  have esm: "\<not> has example_manifest ''esm''" by (simp add: example_manifest_def)
  have ld: "loadESM example_env fs p = Inl (LoadError ''not loaded'')" for fs p
    by (simp add: example_env_def)
  from t1 have a: "\<exists>out s'. getInfo (Suc (Suc 0)) example_env (example_state example_dev_files)
                  [''app''] False = Some (out, s')
            \<and> (case out of
                  Inl e \<Rightarrow> (\<exists>v. createOptions example_env v = Inl e) \<or> e = TypeError
                            \<or> (\<exists>fs p. loadESM example_env fs p = Inl e)
                | Inr None \<Rightarrow> False
                | Inr (Some p) \<Rightarrow> p < length (heap s')
                                    \<and> pkg_range (heap s' ! p) = RANGE_ALL example_env
                                    \<and> memo s' [''app''] = Some (Some p))"
    by (rule conjunct1)
  note b = t1[THEN conjunct2, THEN conjunct1, rule_format, OF none]
  note c = t2[THEN conjunct2, THEN conjunct2, THEN conjunct1, rule_format, OF rc]
  note j = t3[THEN conjunct2, THEN conjunct2, THEN conjunct2, THEN conjunct1, rule_format, OF jsn]
  note k = t4[THEN conjunct2, THEN conjunct2, THEN conjunct2, THEN conjunct2, rule_format, OF scr]
  show ?thesis
    apply (intro conjI)
        apply (rule a)
       apply (simp add: b esm del: getInfo.simps readInfo.simps)
      apply (simp add: c example_env_values del: getInfo.simps readInfo.simps)
     apply (simp add: j rj del: getInfo.simps readInfo.simps)
    apply (simp add: k ld del: getInfo.simps readInfo.simps split: prod.splits sum.splits)
    done
qed

text \<open>
  C1 as stated fails: the directory \<open>app\<close> holds only a manifest that declares the tool
  under \<open>devDependencies\<close>; there is no options file, and \<open>getInfo\<close> returns a package
  with the range \<open>*\<close>, not \<open>null\<close>.
\<close>

theorem dev_only_resolution_counterexample:
  "readFile example_dev_files [''app'', ''.esmrc''] = None
   \<and> findPath example_dev_files ''.esmrc'' [''app''] searchExts = None
   \<and> getInfo 2 example_env (example_state example_dev_files) [''app''] False =
       Some (Inr (Some 0), example_resolved_state)
   \<and> pkg_range (heap example_resolved_state ! 0) = JStr ''*''"
  using example_dev_resolution
  by (simp add: readFile_def findPath_def isFile_def searchExts_def example_dev_files_def
      example_resolved_state_def)

lemma getInfo_hit:
  assumes "memo s d = Some pkg" and "\<not> force \<or> pkg \<noteq> None"
  shows "getInfo (Suc n) w s d force = Some (Inr pkg, s)"
  using assms by (simp del: readInfo.simps)

lemma getInfo_memoizes:
  assumes "getInfo n w s d force = Some (Inr pkg, s')"
  shows "memo s' d = Some pkg"
proof (cases n)
  case 0
  with assms show ?thesis by simp
next
  case (Suc k)
  show ?thesis
  proof (cases "\<exists>q. memo s d = Some q \<and> (\<not> force \<or> q \<noteq> None)")
    case True
    then obtain q where q: "memo s d = Some q" "\<not> force \<or> q \<noteq> None" by blast
    from getInfo_hit[OF q, of k w] assms Suc have "q = pkg" "s' = s" by simp_all
    with q show ?thesis by simp
  next
    case False
    then have miss: "(case memo s d of
              Some pkg \<Rightarrow> (if \<not> force \<or> pkg \<noteq> None then Some pkg else None)
            | None \<Rightarrow> None) = None"
      by (cases "memo s d") auto
    show ?thesis
    proof (cases "basename d = ''node_modules''")
      case True
      with assms Suc miss show ?thesis
        by (auto simp del: readInfo.simps)
    next
      case nm: False
      from assms Suc have r: "getInfo (Suc k) w s d force = Some (Inr pkg, s')"
        by (simp del: readInfo.simps getInfo.simps)
      from r[unfolded getInfo.simps(2) miss] nm
      show ?thesis
        by (auto simp del: readInfo.simps getInfo.simps
            split: option.splits prod.splits sum.splits if_splits)
    qed
  qed
qed

text \<open>
  C7. Resolution is memoized per directory. A call of \<open>getInfo\<close> for a directory with a
  memoized value returns that value and leaves the state as it is, without resolving
  again, unless \<open>force\<close> is set and the memoized value is \<open>null\<close>. A call that returns a
  value (a package or \<open>null\<close>) leaves that value memoized for the directory, so that a
  repeated call \<open>getInfo d false\<close> returns the identical value, again without a change of
  the state.
\<close>

theorem getInfo_memoized:
  "(memo s d = Some pkg \<and> (\<not> force \<or> pkg \<noteq> None)
      \<longrightarrow> getInfo (Suc n) w s d force = Some (Inr pkg, s))
   \<and> (getInfo n w s d force = Some (Inr pkg, s')
      \<longrightarrow> memo s' d = Some pkg \<and> getInfo (Suc m) w' s' d False = Some (Inr pkg, s'))"
proof (intro conjI impI)
  assume "memo s d = Some pkg \<and> (\<not> force \<or> pkg \<noteq> None)"
  then show "getInfo (Suc n) w s d force = Some (Inr pkg, s)"
    using getInfo_hit by blast
next
  assume r: "getInfo n w s d force = Some (Inr pkg, s')"
  then show "memo s' d = Some pkg" by (rule getInfo_memoizes)
  then show "getInfo (Suc m) w' s' d False = Some (Inr pkg, s')"
    by (rule getInfo_hit) simp
qed

theorem getInfo_memoized_witness:
  "memo example_resolved_state [''app''] = Some (Some 0)
   \<and> getInfo (Suc 0) example_env example_resolved_state [''app''] True
       = Some (Inr (Some 0), example_resolved_state)
   \<and> getInfo 2 example_env (example_state example_dev_files) [''app''] False
       = Some (Inr (Some 0), example_resolved_state)
   \<and> getInfo (Suc 0) example_env example_resolved_state [''app''] False
       = Some (Inr (Some 0), example_resolved_state)
   \<and> getInfo (Suc 0) example_env (example_state []) [''app'', ''node_modules''] False
       = Some (Inr None, (example_state [])\<lparr>memo := [[''app'', ''node_modules''] \<mapsto> None]\<rparr>)
   \<and> getInfo (Suc 0) example_env
         ((example_state [])\<lparr>memo := [[''app'', ''node_modules''] \<mapsto> None]\<rparr>)
         [''app'', ''node_modules''] False
       = Some (Inr None, (example_state [])\<lparr>memo := [[''app'', ''node_modules''] \<mapsto> None]\<rparr>)"
proof -
  have m: "memo example_resolved_state [''app''] = Some (Some 0)"
    by (simp add: example_resolved_state_def)
  have nmod: "getInfo (Suc 0) example_env (example_state []) [''app'', ''node_modules''] False
       = Some (Inr None, (example_state [])\<lparr>memo := [[''app'', ''node_modules''] \<mapsto> None]\<rparr>)"
    by (simp add: example_state_def basename_def)
  from getInfo_memoized[where s = example_resolved_state and d = "[''app'']" and pkg = "Some 0"
          and force = True and n = 0 and w = example_env]
       getInfo_memoized[where n = 2 and w = example_env and s = "example_state example_dev_files"
          and d = "[''app'']" and force = False and pkg = "Some 0"
          and s' = example_resolved_state and m = 0 and w' = example_env]
       getInfo_memoized[where n = "Suc 0" and w = example_env and s = "example_state []"
          and d = "[''app'', ''node_modules'']" and force = False and pkg = None
          and s' = "(example_state [])\<lparr>memo := [[''app'', ''node_modules''] \<mapsto> None]\<rparr>"
          and m = 0 and w' = example_env]
       m example_dev_resolution nmod
  show ?thesis by blast
qed

end
